theory Spec2Isabelle
  imports Main
begin

section \<open>Values exchanged with the outside\<close>

text \<open>
  The program of \<^verbatim>\<open>streamlit_app.py\<close> is the class \<^verbatim>\<open>ResearchAssistant\<close>: a search
  client with a cache (\<^verbatim>\<open>web_search\<close>), a formatter (\<^verbatim>\<open>format_search_results\<close>), and
  the bounded agent loop (\<^verbatim>\<open>process_research_query\<close> with its local \<^verbatim>\<open>handle_tool_use\<close>).
  The Streamlit calls (\<^verbatim>\<open>st.status\<close>, \<^verbatim>\<open>st.error\<close>, \<^verbatim>\<open>research_status.update\<close>) only
  display progress and take no part in the control flow; they are left out.

  Decoded JSON, as Python holds it: the search provider's payload, and the input object
  of a tool call. A float is kept as its literal, since the program never computes
  with one. An object is an association list whose first binding of a key counts. A
  string is the list of its characters.
\<close>

datatype json =
    JNull
  | JBool bool
  | JInt int
  | JFloat string
  | JStr string
  | JArr "json list"
  | JObj "(string \<times> json) list"

text \<open>
  One search hit, the dictionary with the keys title, url and description. Only
  \<^verbatim>\<open>web_search\<close> makes hits, and it makes each with the three keys; a value is whatever
  the provider sent under the key, or the empty string.
\<close>

record search_result =
  title :: json
  url :: json
  description :: json

text \<open>
  A block of a model response: \<^verbatim>\<open>content_item.type\<close> is text (with \<^verbatim>\<open>.text\<close>), tool_use
  (with \<^verbatim>\<open>.id\<close>, \<^verbatim>\<open>.name\<close>, \<^verbatim>\<open>.input\<close>), or another type the program ignores.
\<close>

datatype content_item =
    TextItem string
  | ToolUseItem string string "(string \<times> json) list"
  | OtherItem string

record response =
  stop_reason :: string
  content :: "content_item list"

text \<open>The turns of the conversation history, as the program appends them.\<close>

datatype role = User | Assistant

datatype block =
    ToolUseBlock string string "(string \<times> json) list"
  | ToolResultBlock string string

datatype message_content = Plain string | Blocks "block list"

datatype message = Message role message_content

text \<open>
  What the \<^verbatim>\<open>try\<close> of \<^verbatim>\<open>process_research_query\<close> can catch, by handler: an
  \<^verbatim>\<open>anthropic.APIError\<close>, a \<^verbatim>\<open>requests.RequestException\<close>, any other \<^verbatim>\<open>Exception\<close>;
  each with \<^verbatim>\<open>str(e)\<close>. What is not an \<^verbatim>\<open>Exception\<close> (an interrupt of the process) is
  outside the model.
\<close>

datatype exn = APIError string | RequestException string | OtherException string

text \<open>What can be raised inside the \<^verbatim>\<open>try\<close> of \<^verbatim>\<open>web_search\<close>.\<close>

datatype search_error = GetFailed | StatusError | JsonError | TypeError | KeyError | AttributeError

text \<open>
  What \<^verbatim>\<open>requests.get\<close> gives: it raises (no connection, a timeout, too many
  redirects), or it returns the response that ends the exchange, with its status code
  and its body. A body is the payload it decodes to, or one on which
  \<^verbatim>\<open>response.json()\<close> raises.
\<close>

datatype http_body = InvalidJson | Payload json

datatype http_outcome = ConnectionFails | Response int http_body

text \<open>
  \<^verbatim>\<open>response.raise_for_status()\<close> of the requests library raises an HTTPError on a
  client error (4xx) and on a server error (5xx), and on no other status code.
\<close>

definition raise_for_status :: "int \<Rightarrow> bool" where
  "raise_for_status status_code = (400 \<le> status_code \<and> status_code < 600)"

text \<open>
  The outside world. The model provider answers the \<open>n\<close>-th request of the session,
  given the messages sent, with a response or an exception; the search provider answers
  the \<open>n\<close>-th GET of the session, given query and count. \<open>str_other\<close> is Python's
  \<^verbatim>\<open>str\<close> on floats, lists and dictionaries, which is not modelled further.
\<close>

record env =
  model_api :: "nat \<Rightarrow> message list \<Rightarrow> exn + response"
  http_get :: "nat \<Rightarrow> json \<Rightarrow> json \<Rightarrow> http_outcome"
  str_other :: "json \<Rightarrow> string"

text \<open>
  The object: the two attributes that change, and two logs that record what it sent out
  (every model request with the messages it carried and its outcome, every GET with its
  parameters). The client and the search key are set once by the constructor and only
  passed on to the providers; they are part of the world.
\<close>

record research_assistant =
  conversation_history :: "message list"
  search_results_cache :: "string \<rightharpoonup> search_result list"
  model_log :: "(message list \<times> (exn + response)) list"
  net_log :: "(json \<times> json) list"

definition new_assistant :: research_assistant where
  "new_assistant =
     \<lparr>conversation_history = [], search_results_cache = Map.empty, model_log = [], net_log = []\<rparr>"

section \<open>Python's operations on these values\<close>

definition digit :: "nat \<Rightarrow> char" where
  "digit d = ''0123456789'' ! d"

fun str_nat :: "nat \<Rightarrow> string" where
  "str_nat n = (if n < 10 then [digit n] else str_nat (n div 10) @ [digit (n mod 10)])"

declare str_nat.simps [simp del]

definition str_int :: "int \<Rightarrow> string" where
  "str_int i = (if i < 0 then ''-'' @ str_nat (nat (- i)) else str_nat (nat i))"

text \<open>\<^verbatim>\<open>str(v)\<close>, which an f-string applies to each value it interpolates.\<close>

definition py_str :: "env \<Rightarrow> json \<Rightarrow> string" where
  "py_str E v =
     (case v of
        JStr s \<Rightarrow> s
      | JInt i \<Rightarrow> str_int i
      | JBool b \<Rightarrow> (if b then ''True'' else ''False'')
      | JNull \<Rightarrow> ''None''
      | _ \<Rightarrow> str_other E v)"

text \<open>\<^verbatim>\<open>d.get(key, default)\<close> on a dictionary.\<close>

definition py_get :: "(string \<times> json) list \<Rightarrow> string \<Rightarrow> json \<Rightarrow> json" where
  "py_get d key dflt = (case map_of d key of None \<Rightarrow> dflt | Some v \<Rightarrow> v)"

fun is_substr :: "string \<Rightarrow> string \<Rightarrow> bool" where
  "is_substr xs [] = (xs = [])"
| "is_substr xs (y # ys) = (take (length xs) (y # ys) = xs \<or> is_substr xs ys)"

text \<open>
  \<^verbatim>\<open>key in v\<close> for a string key: a key of a dictionary, an element of a list, a
  substring of a string; a TypeError on anything else.
\<close>

definition py_in :: "string \<Rightarrow> json \<Rightarrow> search_error + bool" where
  "py_in key v =
     (case v of
        JObj d \<Rightarrow> Inr (key \<in> set (map fst d))
      | JArr xs \<Rightarrow> Inr (JStr key \<in> set xs)
      | JStr s \<Rightarrow> Inr (is_substr key s)
      | _ \<Rightarrow> Inl TypeError)"

text \<open>\<^verbatim>\<open>v[key]\<close> for a string key.\<close>

definition py_index :: "json \<Rightarrow> string \<Rightarrow> search_error + json" where
  "py_index v key =
     (case v of
        JObj d \<Rightarrow> (case map_of d key of None \<Rightarrow> Inl KeyError | Some w \<Rightarrow> Inr w)
      | _ \<Rightarrow> Inl TypeError)"

text \<open>
  \<^verbatim>\<open>xs[:n]\<close> on a sequence: a negative bound counts from the end, \<^verbatim>\<open>None\<close> keeps
  everything, a Boolean is 0 or 1, any other bound is a TypeError.
\<close>

definition py_slice_to :: "'a list \<Rightarrow> json \<Rightarrow> search_error + 'a list" where
  "py_slice_to xs n =
     (case n of
        JInt k \<Rightarrow> Inr (if 0 \<le> k then take (nat k) xs else take (length xs - nat (- k)) xs)
      | JBool b \<Rightarrow> Inr (take (if b then 1 else 0) xs)
      | JNull \<Rightarrow> Inr xs
      | _ \<Rightarrow> Inl TypeError)"

text \<open>
  The items that \<^verbatim>\<open>for item in v[:n]\<close> runs over: the elements of a list, the
  one-character strings of a string; a dictionary or a scalar cannot be sliced.
\<close>

definition py_slice_items :: "json \<Rightarrow> json \<Rightarrow> search_error + json list" where
  "py_slice_items v n =
     (case v of
        JArr xs \<Rightarrow> py_slice_to xs n
      | JStr s \<Rightarrow> (case py_slice_to s n of Inl e \<Rightarrow> Inl e | Inr cs \<Rightarrow> Inr (map (\<lambda>c. JStr [c]) cs))
      | JObj d \<Rightarrow> Inl TypeError
      | _ \<Rightarrow> Inl TypeError)"

section \<open>The search client\<close>

definition cache_key :: "env \<Rightarrow> json \<Rightarrow> json \<Rightarrow> string" where
  "cache_key E query num_results = py_str E query @ ''_'' @ py_str E num_results"

text \<open>
  The condition \<^verbatim>\<open>"web" in results and "results" in results["web"]\<close>, evaluated left to
  right.
\<close>

definition has_web_results :: "json \<Rightarrow> search_error + bool" where
  "has_web_results results =
     (case py_in ''web'' results of
        Inl e \<Rightarrow> Inl e
      | Inr False \<Rightarrow> Inr False
      | Inr True \<Rightarrow>
          (case py_index results ''web'' of
             Inl e \<Rightarrow> Inl e
           | Inr web \<Rightarrow> py_in ''results'' web))"

text \<open>
  The loop body: \<^verbatim>\<open>item.get\<close> exists on a dictionary only; the first item of another
  kind raises and what was collected is lost.
\<close>

fun process_items :: "json list \<Rightarrow> search_result list \<Rightarrow> search_error + search_result list" where
  "process_items [] processed_results = Inr processed_results"
| "process_items (item # rest) processed_results =
     (case item of
        JObj d \<Rightarrow>
          process_items rest
            (processed_results @
              [\<lparr>title = py_get d ''title'' (JStr ''''),
                url = py_get d ''url'' (JStr ''''),
                description = py_get d ''description'' (JStr '''')\<rparr>])
      | _ \<Rightarrow> Inl AttributeError)"

definition read_results :: "json \<Rightarrow> json \<Rightarrow> search_error + search_result list" where
  "read_results results num_results =
     (case py_index results ''web'' of
        Inl e \<Rightarrow> Inl e
      | Inr web \<Rightarrow>
          (case py_index web ''results'' of
             Inl e \<Rightarrow> Inl e
           | Inr found \<Rightarrow>
               (case py_slice_items found num_results of
                  Inl e \<Rightarrow> Inl e
                | Inr items \<Rightarrow> process_items items [])))"

text \<open>
  The body of the \<^verbatim>\<open>try\<close>: the GET is issued (and logged), the status is tested,
  the body decoded and read, and only a run that raises nothing stores its result in
  the cache.
\<close>

definition web_search_try ::
  "env \<Rightarrow> json \<Rightarrow> json \<Rightarrow> research_assistant \<Rightarrow> (search_error + search_result list) \<times> research_assistant" where
  "web_search_try E query num_results s =
     (let s1 = s\<lparr>net_log := net_log s @ [(query, num_results)]\<rparr>;
          store = (\<lambda>processed_results.
            s1\<lparr>search_results_cache :=
                 (search_results_cache s1)(cache_key E query num_results \<mapsto> processed_results)\<rparr>)
      in case http_get E (length (net_log s)) query num_results of
           ConnectionFails \<Rightarrow> (Inl GetFailed, s1)
         | Response status_code body \<Rightarrow>
             (if raise_for_status status_code then (Inl StatusError, s1)
              else
                (case body of
                   InvalidJson \<Rightarrow> (Inl JsonError, s1)
                 | Payload results \<Rightarrow>
                     (case has_web_results results of
                        Inl e \<Rightarrow> (Inl e, s1)
                      | Inr True \<Rightarrow>
                          (case read_results results num_results of
                             Inl e \<Rightarrow> (Inl e, s1)
                           | Inr processed_results \<Rightarrow>
                               (Inr processed_results, store processed_results))
                      | Inr False \<Rightarrow> (Inr [], store [])))))"

definition web_search ::
  "env \<Rightarrow> json \<Rightarrow> json \<Rightarrow> research_assistant \<Rightarrow> search_result list \<times> research_assistant" where
  "web_search E query num_results s =
     (case search_results_cache s (cache_key E query num_results) of
        Some cached \<Rightarrow> (cached, s)
      | None \<Rightarrow>
          (case web_search_try E query num_results s of
             (Inl e, s') \<Rightarrow> ([], s')
           | (Inr processed_results, s') \<Rightarrow> (processed_results, s')))"

section \<open>The formatter\<close>

definition format_entry :: "env \<Rightarrow> nat \<Rightarrow> search_result \<Rightarrow> string" where
  "format_entry E i result =
     str_nat i @ ''. **'' @ py_str E (title result) @ ''**\<newline>''
     @ ''   URL: '' @ py_str E (url result) @ ''\<newline>''
     @ ''   '' @ py_str E (description result) @ ''\<newline>\<newline>''"

text \<open>\<^verbatim>\<open>for i, result in enumerate(results, 1): formatted += ...\<close>\<close>

fun format_loop :: "env \<Rightarrow> nat \<Rightarrow> search_result list \<Rightarrow> string \<Rightarrow> string" where
  "format_loop E i [] formatted = formatted"
| "format_loop E i (result # rest) formatted =
     format_loop E (Suc i) rest (formatted @ format_entry E i result)"

definition format_search_results :: "env \<Rightarrow> search_result list \<Rightarrow> string" where
  "format_search_results E results =
     (if results = [] then ''No search results found.''
      else format_loop E 1 results ''### Search Results:\<newline>\<newline>'')"

section \<open>The agent loop\<close>

text \<open>
  \<^verbatim>\<open>handle_tool_use\<close>: the scan of the response's blocks. A tool_use block named
  web_search is searched for, answered and recorded, and the scan returns True; any
  other block, a tool_use block of another name among them, is passed over.
\<close>

fun handle_tool_use_items ::
  "env \<Rightarrow> content_item list \<Rightarrow> research_assistant \<Rightarrow> bool \<times> research_assistant" where
  "handle_tool_use_items E [] s = (False, s)"
| "handle_tool_use_items E (content_item # rest) s =
     (case content_item of
        ToolUseItem tool_id tool_name tool_input \<Rightarrow>
          (if tool_name = ''web_search'' then
             (let query = py_get tool_input ''query'' (JStr '''');
                  num_results = py_get tool_input ''num_results'' (JInt 5);
                  (search_results, s1) = web_search E query num_results s;
                  formatted_results = format_search_results E search_results;
                  s2 = s1\<lparr>conversation_history := conversation_history s1 @
                         [Message Assistant (Blocks [ToolUseBlock tool_id tool_name tool_input])]\<rparr>;
                  s3 = s2\<lparr>conversation_history := conversation_history s2 @
                         [Message User (Blocks [ToolResultBlock tool_id formatted_results])]\<rparr>
              in (True, s3))
           else handle_tool_use_items E rest s)
      | _ \<Rightarrow> handle_tool_use_items E rest s)"

definition handle_tool_use :: "env \<Rightarrow> response \<Rightarrow> research_assistant \<Rightarrow> bool \<times> research_assistant" where
  "handle_tool_use E response s = handle_tool_use_items E (content response) s"

definition max_iterations :: nat where
  "max_iterations = 5"

text \<open>\<^verbatim>\<open>self.client.messages.create(..., messages=self.conversation_history, ...)\<close>\<close>

definition create_message :: "env \<Rightarrow> research_assistant \<Rightarrow> (exn + response) \<times> research_assistant" where
  "create_message E s =
     (let outcome = model_api E (length (model_log s)) (conversation_history s)
      in (outcome, s\<lparr>model_log := model_log s @ [(conversation_history s, outcome)]\<rparr>))"

text \<open>
  The \<^verbatim>\<open>while iterations < max_iterations\<close> loop. \<open>prior\<close> is the variable
  \<^verbatim>\<open>response\<close>, unbound before the first request. The loop ends with an exception of
  the model request, or with the last response.
\<close>

function agent_loop ::
  "env \<Rightarrow> nat \<Rightarrow> response option \<Rightarrow> research_assistant \<Rightarrow> (exn + response option) \<times> research_assistant" where
  "agent_loop E iterations prior s =
     (if iterations < max_iterations then
        (case create_message E s of
           (Inl e, s1) \<Rightarrow> (Inl e, s1)
         | (Inr response, s1) \<Rightarrow>
             (if stop_reason response = ''tool_use'' then
                (case handle_tool_use E response s1 of
                   (tool_used, s2) \<Rightarrow>
                     (if \<not> tool_used then (Inr (Some response), s2)
                      else agent_loop E (iterations + 1) (Some response) s2))
              else (Inr (Some response), s1)))
      else (Inr prior, s))"
  by pat_completeness auto
termination
  by (relation "measure (\<lambda>(E, iterations, prior, s). max_iterations - iterations)") auto

declare agent_loop.simps [simp del]

text \<open>\<^verbatim>\<open>for content_item in response.content: if content_item.type == "text": final_text += content_item.text\<close>\<close>

fun extract_text :: "content_item list \<Rightarrow> string \<Rightarrow> string" where
  "extract_text [] final_text = final_text"
| "extract_text (content_item # rest) final_text =
     (case content_item of
        TextItem t \<Rightarrow> extract_text rest (final_text @ t)
      | _ \<Rightarrow> extract_text rest final_text)"

text \<open>
  The body of the \<^verbatim>\<open>try\<close> of \<^verbatim>\<open>process_research_query\<close>, after the user turn has been
  appended. Reading \<^verbatim>\<open>response\<close> while it is unbound would be an UnboundLocalError,
  caught by the last handler; as \<open>0 < max_iterations\<close>, the loop never ends that way
  (\<open>process_research_query_trace\<close> below).
\<close>

definition research_try ::
  "env \<Rightarrow> research_assistant \<Rightarrow> (exn + string) \<times> research_assistant" where
  "research_try E s =
     (case agent_loop E 0 None s of
        (Inl e, s1) \<Rightarrow> (Inl e, s1)
      | (Inr None, s1) \<Rightarrow> (Inl (OtherException ''UnboundLocalError''), s1)
      | (Inr (Some response), s1) \<Rightarrow>
          (let final_text = extract_text (content response) ''''
           in (Inr final_text,
               if final_text \<noteq> '''' then
                 s1\<lparr>conversation_history :=
                      conversation_history s1 @ [Message Assistant (Plain final_text)]\<rparr>
               else s1)))"

text \<open>The three handlers.\<close>

definition error_msg :: "exn \<Rightarrow> string" where
  "error_msg e =
     (case e of
        APIError m \<Rightarrow> ''Anthropic API Error: '' @ m
      | RequestException m \<Rightarrow> ''Network Error: '' @ m
      | OtherException m \<Rightarrow> ''Unexpected Error: '' @ m)"

definition process_research_query ::
  "env \<Rightarrow> string \<Rightarrow> research_assistant \<Rightarrow> string \<times> research_assistant" where
  "process_research_query E user_query s =
     (case research_try E
             (s\<lparr>conversation_history := conversation_history s @ [Message User (Plain user_query)]\<rparr>) of
        (Inl e, s1) \<Rightarrow> (error_msg e, s1)
      | (Inr final_text, s1) \<Rightarrow> (final_text, s1))"

definition reset_conversation :: "research_assistant \<Rightarrow> string \<times> research_assistant" where
  "reset_conversation s = (''Conversation has been reset.'', s\<lparr>conversation_history := []\<rparr>)"

section \<open>What the claims speak of\<close>

text \<open>
  The block that \<open>handle_tool_use\<close> looks for, and what answering it does to the
  object: one call of \<open>web_search\<close> with the query and count of the block (5 when
  the count is absent), then the two turns appended to the history the object had.
\<close>

definition is_web_search_call :: "content_item \<Rightarrow> bool" where
  "is_web_search_call c = (case c of ToolUseItem i n inp \<Rightarrow> n = ''web_search'' | _ \<Rightarrow> False)"

definition answer_call :: "env \<Rightarrow> content_item \<Rightarrow> research_assistant \<Rightarrow> research_assistant" where
  "answer_call E c s =
     (case c of
        ToolUseItem i n inp \<Rightarrow>
          (let query = py_get inp ''query'' (JStr '''');
               num_results = py_get inp ''num_results'' (JInt 5);
               found = web_search E query num_results s
           in (snd found)\<lparr>conversation_history := conversation_history s @
                [Message Assistant (Blocks [ToolUseBlock i n inp]),
                 Message User (Blocks [ToolResultBlock i (format_search_results E (fst found))])]\<rparr>)
      | _ \<Rightarrow> s)"

text \<open>
  The object once a model request has been sent from it: only the log grows.
\<close>

definition sent :: "env \<Rightarrow> research_assistant \<Rightarrow> research_assistant" where
  "sent E s = snd (create_message E s)"

text \<open>
  A tool pair is an assistant turn holding one tool_use block followed by a user turn
  holding one tool_result block with the same identifier. \<open>tool_pairs\<close> is a
  sequence of such pairs.
\<close>

definition tool_pair :: "message \<Rightarrow> message \<Rightarrow> bool" where
  "tool_pair a u =
     (\<exists>i n inp txt. a = Message Assistant (Blocks [ToolUseBlock i n inp])
        \<and> u = Message User (Blocks [ToolResultBlock i txt]))"

fun tool_pairs :: "message list \<Rightarrow> bool" where
  "tool_pairs [] = True"
| "tool_pairs [a] = False"
| "tool_pairs (a # u # rest) = (tool_pair a u \<and> tool_pairs rest)"

text \<open>
  The history has no dangling tool_use: each identifier of a tool_use block of an
  assistant turn is the \<^verbatim>\<open>tool_use_id\<close> of a tool_result block of the user turn
  that comes next.
\<close>

fun tool_use_ids :: "message \<Rightarrow> string list" where
  "tool_use_ids (Message Assistant (Blocks bs)) =
     concat (map (\<lambda>b. case b of ToolUseBlock i n inp \<Rightarrow> [i] | _ \<Rightarrow> []) bs)"
| "tool_use_ids _ = []"

fun tool_result_ids :: "message \<Rightarrow> string list" where
  "tool_result_ids (Message User (Blocks bs)) =
     concat (map (\<lambda>b. case b of ToolResultBlock j txt \<Rightarrow> [j] | _ \<Rightarrow> []) bs)"
| "tool_result_ids _ = []"

fun no_dangling :: "message list \<Rightarrow> bool" where
  "no_dangling [] = True"
| "no_dangling [m] = (tool_use_ids m = [])"
| "no_dangling (m # next # rest) =
     (set (tool_use_ids m) \<subseteq> set (tool_result_ids next) \<and> no_dangling (next # rest))"

text \<open>
  What one run of the loop has sent (\<open>logged\<close>) and appended (\<open>pairs\<close>):
  every request carried the history of the start followed by complete tool pairs, every
  request but the last was answered with a response, and the loop's outcome is that of
  the last request.
\<close>

definition loop_trace ::
  "research_assistant \<Rightarrow> response option \<Rightarrow> exn + response option \<Rightarrow>
   (message list \<times> (exn + response)) list \<Rightarrow> message list \<Rightarrow> bool" where
  "loop_trace s prior out logged pairs =
     (tool_pairs pairs
      \<and> (\<forall>p \<in> set logged. \<exists>ps. fst p = conversation_history s @ ps \<and> tool_pairs ps)
      \<and> (\<forall>p \<in> set (butlast logged). \<exists>r. snd p = Inr r)
      \<and> (case out of
           Inl e \<Rightarrow> logged \<noteq> [] \<and> snd (last logged) = Inl e
         | Inr None \<Rightarrow> logged = [] \<and> prior = None
         | Inr (Some r) \<Rightarrow> (if logged = [] then prior = Some r else snd (last logged) = Inr r)))"

text \<open>
  The start of \<open>process_research_query\<close> (the user turn is appended), and its
  end: the answer returned and the turns appended after the loop.
\<close>

definition with_query :: "string \<Rightarrow> research_assistant \<Rightarrow> research_assistant" where
  "with_query q s = s\<lparr>conversation_history := conversation_history s @ [Message User (Plain q)]\<rparr>"

definition closing :: "exn + response option \<Rightarrow> string \<Rightarrow> message list \<Rightarrow> bool" where
  "closing out answer final =
     (case out of
        Inl e \<Rightarrow> answer = error_msg e \<and> final = []
      | Inr None \<Rightarrow> False
      | Inr (Some r) \<Rightarrow>
          answer = extract_text (content r) ''''
          \<and> final = (if answer = '''' then [] else [Message Assistant (Plain answer)]))"

text \<open>
  A session: an object made by the constructor, then queries and resets in any order.
  \<open>paired\<close> is the invariant of a session.
\<close>

datatype call = Query string | Reset

fun run_call :: "env \<Rightarrow> research_assistant \<Rightarrow> call \<Rightarrow> research_assistant" where
  "run_call E s (Query q) = snd (process_research_query E q s)"
| "run_call E s Reset = snd (reset_conversation s)"

definition session :: "env \<Rightarrow> call list \<Rightarrow> research_assistant" where
  "session E calls = foldl (run_call E) new_assistant calls"

definition paired :: "research_assistant \<Rightarrow> bool" where
  "paired s = (no_dangling (conversation_history s)
     \<and> (\<forall>p \<in> set (model_log s). no_dangling (fst p)))"

text \<open>
  Repeated invocations of \<open>web_search\<close> with one (query, count) pair, collecting
  what each returns.
\<close>

fun web_search_repeat ::
  "env \<Rightarrow> json \<Rightarrow> json \<Rightarrow> nat \<Rightarrow> research_assistant \<Rightarrow> search_result list list \<times> research_assistant" where
  "web_search_repeat E query num_results 0 s = ([], s)"
| "web_search_repeat E query num_results (Suc k) s =
     (case web_search E query num_results s of
        (found, s1) \<Rightarrow>
          (case web_search_repeat E query num_results k s1 of
             (rest, s2) \<Rightarrow> (found # rest, s2)))"

text \<open>
  The search provider's payload is expected to hold an array of objects under
  web.results. \<open>web_results\<close> is that array when the payload has the shape, and a
  payload is malformed when it has no such array or when one of the items of the array
  is not an object. \<open>claimed_failure\<close> is the failure that claim C7 speaks of: the
  request fails, the status is not 2xx, or the payload is malformed (a body that is not
  JSON among them).
\<close>

definition is_object :: "json \<Rightarrow> bool" where
  "is_object v = (case v of JObj d \<Rightarrow> True | _ \<Rightarrow> False)"

definition web_results :: "json \<Rightarrow> json list option" where
  "web_results payload =
     (case payload of
        JObj d \<Rightarrow>
          (case map_of d ''web'' of
             Some (JObj w) \<Rightarrow>
               (case map_of w ''results'' of Some (JArr items) \<Rightarrow> Some items | _ \<Rightarrow> None)
           | _ \<Rightarrow> None)
      | _ \<Rightarrow> None)"

definition malformed :: "json \<Rightarrow> bool" where
  "malformed payload =
     (case web_results payload of
        None \<Rightarrow> True
      | Some items \<Rightarrow> \<exists>item \<in> set items. \<not> is_object item)"

definition claimed_failure :: "http_outcome \<Rightarrow> bool" where
  "claimed_failure outcome =
     (case outcome of
        ConnectionFails \<Rightarrow> True
      | Response status_code body \<Rightarrow>
          \<not> (200 \<le> status_code \<and> status_code < 300)
          \<or> (case body of InvalidJson \<Rightarrow> True | Payload payload \<Rightarrow> malformed payload))"

text \<open>
  The failures that \<open>web_search\<close> turns into the empty list are fewer. The status
  is tested by \<open>raise_for_status\<close>, and of a payload the program reads only the
  items that the count keeps: a payload is unreadable for a count when it has no array
  under web.results, or when one of the items that the count keeps is not an object.
\<close>

definition unreadable :: "json \<Rightarrow> json \<Rightarrow> bool" where
  "unreadable payload num_results =
     (case web_results payload of
        None \<Rightarrow> True
      | Some items \<Rightarrow>
          (case py_slice_to items num_results of
             Inl e \<Rightarrow> False
           | Inr kept \<Rightarrow> \<exists>item \<in> set kept. \<not> is_object item))"

definition failing :: "http_outcome \<Rightarrow> json \<Rightarrow> bool" where
  "failing outcome num_results =
     (case outcome of
        ConnectionFails \<Rightarrow> True
      | Response status_code body \<Rightarrow>
          raise_for_status status_code
          \<or> (case body of
                InvalidJson \<Rightarrow> True
              | Payload payload \<Rightarrow> unreadable payload num_results))"

section \<open>Concrete worlds\<close>

text \<open>
  Responses, payloads and worlds on which the theorems below are evaluated.
\<close>

definition search_request :: response where
  "search_request =
     \<lparr>stop_reason = ''tool_use'',
      content = [TextItem ''Let me search.'',
                 ToolUseItem ''toolu_1'' ''web_search''
                   [(''query'', JStr ''isabelle''), (''num_results'', JInt 2)]]\<rparr>"

definition final_answer :: response where
  "final_answer = \<lparr>stop_reason = ''end_turn'', content = [TextItem ''Done.'']\<rparr>"

definition mixed_request :: response where
  "mixed_request =
     \<lparr>stop_reason = ''tool_use'',
      content = [ToolUseItem ''toolu_1'' ''calculator'' [(''expression'', JStr ''1+1'')],
                 ToolUseItem ''toolu_2'' ''web_search'' [(''query'', JStr ''isabelle'')]]\<rparr>"

definition unknown_tool_request :: response where
  "unknown_tool_request =
     \<lparr>stop_reason = ''tool_use'',
      content = [TextItem ''Let me compute.'',
                 ToolUseItem ''toolu_1'' ''calculator'' [(''expression'', JStr ''1+1'')]]\<rparr>"

definition three_hits :: json where
  "three_hits =
     JObj [(''web'', JObj [(''results'', JArr
       [JObj [(''title'', JStr ''A''), (''url'', JStr ''http://a''), (''description'', JStr ''first'')],
        JObj [(''title'', JStr ''B''), (''url'', JStr ''http://b'')],
        JObj [(''title'', JStr ''C'')]])])]"

definition hit_and_junk :: json where
  "hit_and_junk =
     JObj [(''web'', JObj [(''results'', JArr
       [JObj [(''title'', JStr ''A''), (''url'', JStr ''http://a''), (''description'', JStr ''first'')],
        JStr ''junk''])])]"

definition two_hits :: "search_result list" where
  "two_hits =
     [\<lparr>title = JStr ''A'', url = JStr ''http://a'', description = JStr ''first''\<rparr>,
      \<lparr>title = JStr ''B'', url = JStr ''http://b'', description = JStr ''''\<rparr>]"

definition search_turns :: "message list" where
  "search_turns =
     [Message User (Plain ''q''),
      Message Assistant (Blocks [ToolUseBlock ''toolu_1'' ''web_search''
         [(''query'', JStr ''isabelle''), (''num_results'', JInt 2)]]),
      Message User (Blocks [ToolResultBlock ''toolu_1'' ''No search results found.''])]"

text \<open>
  Both providers are down; the model always asks for a search that fails; one search,
  then the answer (scenario B of the specification); a response that names only an
  unknown tool; a response that names an unknown tool and a search; a model provider that
  fails once; a model provider that fails after one search; a search provider that fails
  once; a search provider that answers with an error status; one that answers with the
  status 300, which the library neither follows as a redirect nor raises on, and with
  the hits in the body; one that answers with a hit followed by an item that is not an
  object.
\<close>

definition env_down :: env where
  "env_down =
     \<lparr>model_api = (\<lambda>n h. Inl (APIError ''overloaded'')),
      http_get = (\<lambda>n q c. ConnectionFails),
      str_other = (\<lambda>v. ''?'')\<rparr>"

definition env_always_search :: env where
  "env_always_search =
     \<lparr>model_api = (\<lambda>n h. Inr \<lparr>stop_reason = ''tool_use'',
          content = [TextItem (''step '' @ str_nat n),
                     ToolUseItem ''toolu'' ''web_search'' [(''query'', JStr ''isabelle'')]]\<rparr>),
      http_get = (\<lambda>n q c. ConnectionFails),
      str_other = (\<lambda>v. ''?'')\<rparr>"

definition env_search_once :: env where
  "env_search_once =
     \<lparr>model_api = (\<lambda>n h. if n = 0 then Inr search_request else Inr final_answer),
      http_get = (\<lambda>n q c. Response 200 (Payload three_hits)),
      str_other = (\<lambda>v. ''?'')\<rparr>"

definition env_unknown_tool :: env where
  "env_unknown_tool =
     \<lparr>model_api = (\<lambda>n h. Inr unknown_tool_request),
      http_get = (\<lambda>n q c. Response 200 (Payload three_hits)),
      str_other = (\<lambda>v. ''?'')\<rparr>"

definition env_mixed :: env where
  "env_mixed =
     \<lparr>model_api = (\<lambda>n h. if n = 0 then Inr mixed_request else Inr final_answer),
      http_get = (\<lambda>n q c. Response 200 (Payload three_hits)),
      str_other = (\<lambda>v. ''?'')\<rparr>"

definition env_recovers :: env where
  "env_recovers =
     \<lparr>model_api = (\<lambda>n h. if n = 0 then Inl (APIError ''overloaded'') else Inr final_answer),
      http_get = (\<lambda>n q c. ConnectionFails),
      str_other = (\<lambda>v. ''?'')\<rparr>"

definition env_fails_after_search :: env where
  "env_fails_after_search =
     \<lparr>model_api = (\<lambda>n h. if n = 0 then Inr search_request
                          else if n = 1 then Inl (OtherException ''connection reset'')
                          else Inr final_answer),
      http_get = (\<lambda>n q c. Response 200 InvalidJson),
      str_other = (\<lambda>v. ''?'')\<rparr>"

definition env_flaky :: env where
  "env_flaky =
     \<lparr>model_api = (\<lambda>n h. Inr final_answer),
      http_get = (\<lambda>n q c. if n = 0 then ConnectionFails else Response 200 (Payload three_hits)),
      str_other = (\<lambda>v. ''?'')\<rparr>"

definition env_search_error :: env where
  "env_search_error =
     \<lparr>model_api = (\<lambda>n h. if n = 0 then Inr search_request else Inr final_answer),
      http_get = (\<lambda>n q c. Response 429 (Payload (JObj [(''type'', JStr ''ErrorResponse'')]))),
      str_other = (\<lambda>v. ''?'')\<rparr>"

definition env_multiple_choices :: env where
  "env_multiple_choices =
     \<lparr>model_api = (\<lambda>n h. Inr final_answer),
      http_get = (\<lambda>n q c. Response 300 (Payload three_hits)),
      str_other = (\<lambda>v. ''?'')\<rparr>"

definition env_junk_tail :: env where
  "env_junk_tail =
     \<lparr>model_api = (\<lambda>n h. Inr final_answer),
      http_get = (\<lambda>n q c. Response 200 (Payload hit_and_junk)),
      str_other = (\<lambda>v. ''?'')\<rparr>"

section \<open>Evaluation\<close>

text \<open>
  The equations that evaluate the program on a concrete world.
\<close>

lemmas eval_defs =
  process_research_query_def research_try_def agent_loop.simps create_message_def
  handle_tool_use_def web_search_def web_search_try_def has_web_results_def read_results_def
  py_in_def py_index_def py_slice_items_def py_slice_to_def py_get_def py_str_def cache_key_def
  format_search_results_def format_entry_def str_int_def str_nat.simps digit_def
  max_iterations_def new_assistant_def Let_def error_msg_def raise_for_status_def

lemma scenario_B:
  "fst (process_research_query env_search_once ''q'' new_assistant) = ''Done.''"
  "conversation_history (snd (process_research_query env_search_once ''q'' new_assistant)) =
     [Message User (Plain ''q''),
      Message Assistant (Blocks [ToolUseBlock ''toolu_1'' ''web_search''
                   [(''query'', JStr ''isabelle''), (''num_results'', JInt 2)]]),
      Message User (Blocks [ToolResultBlock ''toolu_1''
        ''### Search Results:\<newline>\<newline>1. **A**\<newline>   URL: http://a\<newline>   first\<newline>\<newline>2. **B**\<newline>   URL: http://b\<newline>   \<newline>\<newline>'']),
      Message Assistant (Plain ''Done.'')]"
  "length (model_log (snd (process_research_query env_search_once ''q'' new_assistant))) = 2"
  "net_log (snd (process_research_query env_search_once ''q'' new_assistant)) = [(JStr ''isabelle'', JInt 2)]"
  by (simp_all add: eval_defs env_search_once_def search_request_def final_answer_def three_hits_def)

section \<open>The rendering of search results\<close>

lemma format_loop_enumerate:
  "format_loop E i results formatted =
     formatted @ concat (map (\<lambda>(k, r). format_entry E k r) (enumerate i results))"
  by (induction results arbitrary: i formatted) simp_all

text \<open>
  Claim C4. \<open>format_search_results\<close> depends on its argument only (and on how Python
  prints a value). On the empty list it is the fixed sentence; on a non-empty list it
  is the heading followed by one entry per item, the entries numbered 1, 2, ... in the
  order of the items, each made of the item's title, URL and description.
\<close>

theorem format_search_results_numbered:
  "format_search_results E [] = ''No search results found.''
   \<and> (results \<noteq> [] \<longrightarrow>
        format_search_results E results =
          ''### Search Results:\<newline>\<newline>'' @
          concat (map (\<lambda>(i, r). str_nat i @ ''. **'' @ py_str E (title r) @ ''**\<newline>''
                                   @ ''   URL: '' @ py_str E (url r) @ ''\<newline>''
                                   @ ''   '' @ py_str E (description r) @ ''\<newline>\<newline>'')
                      (zip [1..<Suc (length results)] results))
        \<and> length (zip [1..<Suc (length results)] results) = length results)"
proof -
  have "length (zip [1..<Suc (length results)] results) = length results"
    by (simp only: length_zip length_upt diff_Suc_1 min.idem)
  moreover have "format_search_results E [] = ''No search results found.''"
    by (simp add: format_search_results_def)
  moreover have "results \<noteq> [] \<Longrightarrow> format_search_results E results =
          ''### Search Results:\<newline>\<newline>'' @
          concat (map (\<lambda>(i, r). format_entry E i r) (zip [1..<Suc (length results)] results))"
    by (simp add: format_search_results_def format_loop_enumerate enumerate_eq_zip)
  ultimately show ?thesis
    unfolding format_entry_def by blast
qed

theorem format_search_results_numbered_witness:
  "format_search_results env_down [] = ''No search results found.''
   \<and> format_search_results env_down
        [\<lparr>title = JStr ''A'', url = JStr ''http://a'', description = JStr ''first''\<rparr>,
         \<lparr>title = JStr ''B'', url = JStr ''http://b'', description = JInt 7\<rparr>]
      = ''### Search Results:\<newline>\<newline>1. **A**\<newline>   URL: http://a\<newline>   first\<newline>\<newline>2. **B**\<newline>   URL: http://b\<newline>   7\<newline>\<newline>''"
  using format_search_results_numbered [of env_down
        "[\<lparr>title = JStr ''A'', url = JStr ''http://a'', description = JStr ''first''\<rparr>,
         \<lparr>title = JStr ''B'', url = JStr ''http://b'', description = JInt 7\<rparr>]"]
  by (simp add: py_str_def str_int_def str_nat.simps digit_def upt_rec)

section \<open>Reset\<close>

text \<open>
  Claim C9. \<open>reset_conversation\<close> returns the confirmation, leaves the history empty
  and changes nothing else: the cache (hence every entry of it) and the two logs are
  those of before. On an object whose history is already empty it changes nothing at
  all.
\<close>

theorem reset_conversation_frame:
  "fst (reset_conversation s) = ''Conversation has been reset.''
   \<and> conversation_history (snd (reset_conversation s)) = []
   \<and> search_results_cache (snd (reset_conversation s)) = search_results_cache s
   \<and> model_log (snd (reset_conversation s)) = model_log s
   \<and> net_log (snd (reset_conversation s)) = net_log s
   \<and> snd (reset_conversation (s\<lparr>conversation_history := []\<rparr>)) = s\<lparr>conversation_history := []\<rparr>"
  by (simp add: reset_conversation_def)

section \<open>The effects of one search\<close>

lemma web_search_try_frame:
  "web_search_try E q n s = (r, s') \<Longrightarrow>
     conversation_history s' = conversation_history s \<and> model_log s' = model_log s
     \<and> net_log s' = net_log s @ [(q, n)]"
  by (auto simp: web_search_try_def Let_def split: http_outcome.splits http_body.splits sum.splits bool.splits if_splits)

lemma web_search_frame:
  "web_search E q n s = (r, s') \<Longrightarrow>
     conversation_history s' = conversation_history s \<and> model_log s' = model_log s"
  by (auto simp: web_search_def split: option.splits prod.splits sum.splits
           dest: web_search_try_frame)

lemma web_search_net:
  "web_search E q n s = (r, s') \<Longrightarrow>
     net_log s' = net_log s \<or> net_log s' = net_log s @ [(q, n)]"
  by (auto simp: web_search_def split: option.splits prod.splits sum.splits
           dest: web_search_try_frame)

lemma web_search_hit:
  "search_results_cache s (cache_key E query num_results) = Some cached \<Longrightarrow>
     web_search E query num_results s = (cached, s)"
  by (simp add: web_search_def)

lemma web_search_repeat_hit:
  "search_results_cache s (cache_key E query num_results) = Some cached \<Longrightarrow>
     web_search_repeat E query num_results k s = (replicate k cached, s)"
  by (induction k) (simp_all add: web_search_hit)

lemma web_search_try_stores:
  "web_search_try E query num_results s = (Inr found, s1) \<Longrightarrow>
     search_results_cache s1 (cache_key E query num_results) = Some found"
  by (auto simp: web_search_try_def Let_def split: http_outcome.splits http_body.splits sum.splits bool.splits if_splits)

lemma web_search_try_raises:
  "web_search_try E query num_results s = (Inl e, s1) \<Longrightarrow>
     s1 = s\<lparr>net_log := net_log s @ [(query, num_results)]\<rparr>"
  by (auto simp: web_search_try_def Let_def split: http_outcome.splits http_body.splits sum.splits bool.splits if_splits)

lemma web_search_keeps_cache:
  "search_results_cache s \<subseteq>\<^sub>m search_results_cache (snd (web_search E query num_results s))"
  by (auto simp: web_search_def web_search_try_def Let_def map_le_def
           split: option.splits http_outcome.splits http_body.splits sum.splits bool.splits if_splits)

section \<open>Handling a tool request\<close>

lemma find_holds: "find P xs = Some x \<Longrightarrow> P x \<and> x \<in> set xs"
  by (auto simp: find_Some_iff)

lemma handle_tool_use_items_find:
  "handle_tool_use_items E items s =
     (case find is_web_search_call items of
        None \<Rightarrow> (False, s)
      | Some c \<Rightarrow> (True, answer_call E c s))"
proof (induction items)
  case Nil
  show ?case by simp
next
  case (Cons c items)
  show ?case
  proof (cases c)
    case (ToolUseItem i n inp)
    with Cons show ?thesis
      by (auto simp: is_web_search_call_def answer_call_def Let_def split: prod.splits
               dest: web_search_frame)
  qed (use Cons in \<open>simp_all add: is_web_search_call_def\<close>)
qed

lemma answer_call_frame:
  assumes "is_web_search_call c"
  shows "model_log (answer_call E c s) = model_log s"
    and "\<exists>a u. tool_pair a u \<and> conversation_history (answer_call E c s) = conversation_history s @ [a, u]"
proof -
  obtain i n inp where c: "c = ToolUseItem i n inp"
    using assms by (cases c) (simp_all add: is_web_search_call_def)
  obtain found s1 where w:
    "web_search E (py_get inp ''query'' (JStr [])) (py_get inp ''num_results'' (JInt 5)) s = (found, s1)"
    by (cases "web_search E (py_get inp ''query'' (JStr [])) (py_get inp ''num_results'' (JInt 5)) s")
  show "model_log (answer_call E c s) = model_log s"
    using web_search_frame [OF w] by (simp add: c answer_call_def Let_def w)
  show "\<exists>a u. tool_pair a u \<and> conversation_history (answer_call E c s) = conversation_history s @ [a, u]"
    by (simp add: c answer_call_def Let_def w tool_pair_def)
qed

lemma answer_call_net:
  "length (net_log (answer_call E c s)) \<le> length (net_log s) + 1"
proof (cases c)
  case (ToolUseItem i n inp)
  obtain found s1 where w:
    "web_search E (py_get inp ''query'' (JStr [])) (py_get inp ''num_results'' (JInt 5)) s = (found, s1)"
    by (cases "web_search E (py_get inp ''query'' (JStr [])) (py_get inp ''num_results'' (JInt 5)) s")
  from web_search_net [OF w] show ?thesis
    by (auto simp: ToolUseItem answer_call_def Let_def w)
qed (simp_all add: answer_call_def)

text \<open>
  Claim C5, as amended. Of the blocks of a response, \<open>handle_tool_use\<close> acts on the
  first tool_use block named web_search and on no other block: without such a block it
  changes nothing and returns False, with one it makes the one search and appends the
  one pair. So an iteration issues at most one GET and appends at most two turns. A
  tool_use block of another name that comes first is passed over.
\<close>

theorem first_web_search_block_only:
  "handle_tool_use E response s =
     (case find is_web_search_call (content response) of
        None \<Rightarrow> (False, s)
      | Some c \<Rightarrow> (True, answer_call E c s))
   \<and> length (net_log (snd (handle_tool_use E response s))) \<le> length (net_log s) + 1
   \<and> length (conversation_history (snd (handle_tool_use E response s)))
        \<le> length (conversation_history s) + 2"
proof (cases "find is_web_search_call (content response)")
  case None
  then show ?thesis
    by (simp add: handle_tool_use_def handle_tool_use_items_find)
next
  case (Some c)
  then have "is_web_search_call c" by (simp add: find_holds)
  from answer_call_frame(2) [OF this, of E s] answer_call_net [of E c s] Some
  show ?thesis
    by (auto simp: handle_tool_use_def handle_tool_use_items_find)
qed

theorem first_web_search_block_only_witness:
  "handle_tool_use env_down mixed_request new_assistant =
     (True, answer_call env_down
        (ToolUseItem ''toolu_2'' ''web_search'' [(''query'', JStr ''isabelle'')]) new_assistant)"
  using first_web_search_block_only [of env_down mixed_request new_assistant]
  by (simp add: mixed_request_def is_web_search_call_def)

text \<open>
  Claim C5 as stated fails on a response whose first tool_use block names another tool:
  the block acted on is the second one.
\<close>

theorem first_tool_use_block_counterexample:
  "content mixed_request ! 0 = ToolUseItem ''toolu_1'' ''calculator'' [(''expression'', JStr ''1+1'')]
   \<and> conversation_history (snd (handle_tool_use env_down mixed_request new_assistant)) =
       [Message Assistant (Blocks [ToolUseBlock ''toolu_2'' ''web_search'' [(''query'', JStr ''isabelle'')]]),
        Message User (Blocks [ToolResultBlock ''toolu_2'' ''No search results found.''])]"
  by (simp add: eval_defs mixed_request_def env_down_def)

section \<open>The bound on model requests\<close>

lemma sent_simps [simp]:
  "conversation_history (sent E s) = conversation_history s"
  "search_results_cache (sent E s) = search_results_cache s"
  "net_log (sent E s) = net_log s"
  "model_log (sent E s) =
     model_log s @ [(conversation_history s, model_api E (length (model_log s)) (conversation_history s))]"
  by (simp_all add: sent_def create_message_def Let_def)

lemma create_message_sent:
  "create_message E s = (model_api E (length (model_log s)) (conversation_history s), sent E s)"
  by (simp add: sent_def create_message_def Let_def)

lemma agent_loop_cases:
  assumes "agent_loop E it prior s = (out, s')"
  obtains
    (stop) "\<not> it < max_iterations" "out = Inr prior" "s' = s"
  | (fail) e where "it < max_iterations"
      "model_api E (length (model_log s)) (conversation_history s) = Inl e"
      "out = Inl e" "s' = sent E s"
  | (final) r where "it < max_iterations"
      "model_api E (length (model_log s)) (conversation_history s) = Inr r"
      "stop_reason r \<noteq> ''tool_use'' \<or> find is_web_search_call (content r) = None"
      "out = Inr (Some r)" "s' = sent E s"
  | (continue) r c where "it < max_iterations"
      "model_api E (length (model_log s)) (conversation_history s) = Inr r"
      "stop_reason r = ''tool_use''" "find is_web_search_call (content r) = Some c"
      "agent_loop E (it + 1) (Some r) (answer_call E c (sent E s)) = (out, s')"
  using assms
  by (subst (asm) agent_loop.simps)
     (auto simp: create_message_sent handle_tool_use_def handle_tool_use_items_find
           split: if_splits sum.splits option.splits)

lemma tool_pairs_append: "tool_pairs ps \<Longrightarrow> tool_pairs qs \<Longrightarrow> tool_pairs (ps @ qs)"
  by (induction ps rule: tool_pairs.induct) simp_all

lemma loop_trace_stop: "loop_trace s prior (Inr prior) [] []"
  by (cases prior) (simp_all add: loop_trace_def)

lemma loop_trace_one:
  "out = (case x of Inl e \<Rightarrow> Inl e | Inr r \<Rightarrow> Inr (Some r)) \<Longrightarrow>
     loop_trace s prior out [(conversation_history s, x)] []"
  by (cases x) (simp_all add: loop_trace_def)

lemma loop_trace_step:
  assumes "loop_trace s2 (Some r) out logged pairs"
    and "tool_pair a u" and "conversation_history s2 = conversation_history s @ [a, u]"
  shows "loop_trace s prior out ((conversation_history s, Inr r) # logged) (a # u # pairs)"
proof -
  have 1: "tool_pairs (a # u # pairs)"
    using assms by (simp add: loop_trace_def)
  have 2: "\<exists>ps. fst p = conversation_history s @ ps \<and> tool_pairs ps"
    if "p \<in> set ((conversation_history s, Inr r) # logged)" for p
  proof (cases "p = (conversation_history s, Inr r)")
    case True
    then have "fst p = conversation_history s @ [] \<and> tool_pairs []" by simp
    then show ?thesis by (rule exI)
  next
    case False
    with that have "p \<in> set logged" by simp
    then obtain ps where "fst p = conversation_history s2 @ ps" "tool_pairs ps"
      using assms(1) unfolding loop_trace_def by fast
    then have "fst p = conversation_history s @ (a # u # ps) \<and> tool_pairs (a # u # ps)"
      using assms(2,3) by simp
    then show ?thesis by (rule exI)
  qed
  have 3: "\<exists>r'. snd p = Inr r'" if "p \<in> set (butlast ((conversation_history s, Inr r) # logged))" for p
  proof (cases "logged = []")
    case True
    with that show ?thesis by simp
  next
    case False
    with that have "p = (conversation_history s, Inr r) \<or> p \<in> set (butlast logged)" by simp
    then show ?thesis
      using assms(1) unfolding loop_trace_def by auto
  qed
  have 4: "case out of
           Inl e \<Rightarrow> (conversation_history s, Inr r) # logged \<noteq> []
                      \<and> snd (last ((conversation_history s, Inr r) # logged)) = Inl e
         | Inr None \<Rightarrow> (conversation_history s, Inr r) # logged = [] \<and> prior = None
         | Inr (Some r') \<Rightarrow> (if (conversation_history s, Inr r) # logged = [] then prior = Some r'
                               else snd (last ((conversation_history s, Inr r) # logged)) = Inr r')"
  proof (cases out)
    case (Inl e)
    then show ?thesis using assms(1) by (simp add: loop_trace_def)
  next
    case (Inr o1)
    then show ?thesis using assms(1) by (cases o1) (auto simp: loop_trace_def split: if_splits)
  qed
  from 1 2 3 4 show ?thesis
    unfolding loop_trace_def by (intro conjI ballI)
qed

lemma agent_loop_trace:
  assumes "agent_loop E it prior s = (out, s')"
  shows "\<exists>logged pairs.
     model_log s' = model_log s @ logged
     \<and> conversation_history s' = conversation_history s @ pairs
     \<and> length logged \<le> max_iterations - it
     \<and> (it < max_iterations \<longrightarrow> logged \<noteq> [])
     \<and> loop_trace s prior out logged pairs"
  using assms
proof (induction "max_iterations - it" arbitrary: it prior s)
  case 0
  from "0.prems" show ?case
  proof (cases rule: agent_loop_cases)
    case stop
    then have "model_log s' = model_log s @ [] \<and> conversation_history s' = conversation_history s @ []
      \<and> length ([] :: (message list \<times> (exn + response)) list) \<le> max_iterations - it
      \<and> (it < max_iterations \<longrightarrow> ([] :: (message list \<times> (exn + response)) list) \<noteq> [])
      \<and> loop_trace s prior out [] []"
      by (simp add: loop_trace_stop)
    then show ?thesis by (intro exI)
  qed (use "0.hyps" in simp_all)
next
  case (Suc k)
  from Suc.prems show ?case
  proof (cases rule: agent_loop_cases)
    case stop
    then have "model_log s' = model_log s @ [] \<and> conversation_history s' = conversation_history s @ []
      \<and> length ([] :: (message list \<times> (exn + response)) list) \<le> max_iterations - it
      \<and> (it < max_iterations \<longrightarrow> ([] :: (message list \<times> (exn + response)) list) \<noteq> [])
      \<and> loop_trace s prior out [] []"
      by (simp add: loop_trace_stop)
    then show ?thesis by (intro exI)
  next
    case (fail e)
    then have "model_log s' = model_log s @ [(conversation_history s, Inl e)]
      \<and> conversation_history s' = conversation_history s @ []
      \<and> length [(conversation_history s, Inl e :: exn + response)] \<le> max_iterations - it
      \<and> (it < max_iterations \<longrightarrow> [(conversation_history s, Inl e :: exn + response)] \<noteq> [])
      \<and> loop_trace s prior out [(conversation_history s, Inl e)] []"
      by (simp add: loop_trace_one)
    then show ?thesis by (intro exI)
  next
    case (final r)
    then have "model_log s' = model_log s @ [(conversation_history s, Inr r)]
      \<and> conversation_history s' = conversation_history s @ []
      \<and> length [(conversation_history s, Inr r :: exn + response)] \<le> max_iterations - it
      \<and> (it < max_iterations \<longrightarrow> [(conversation_history s, Inr r :: exn + response)] \<noteq> [])
      \<and> loop_trace s prior out [(conversation_history s, Inr r)] []"
      by (simp add: loop_trace_one)
    then show ?thesis by (intro exI)
  next
    case (continue r c)
    let ?s2 = "answer_call E c (sent E s)"
    have c: "is_web_search_call c"
      using continue(4) by (simp add: find_holds)
    obtain a u where au: "tool_pair a u"
      "conversation_history ?s2 = conversation_history s @ [a, u]"
      using answer_call_frame(2) [OF c, of E "sent E s"] by auto
    have log2: "model_log ?s2 = model_log s @ [(conversation_history s, Inr r)]"
      using answer_call_frame(1) [OF c, of E "sent E s"] continue(2) by simp
    have "k = max_iterations - (it + 1)"
      using Suc.hyps(2) by simp
    from Suc.hyps(1) [OF this continue(5)]
    obtain logged pairs where IH:
      "model_log s' = model_log ?s2 @ logged"
      "conversation_history s' = conversation_history ?s2 @ pairs"
      "length logged \<le> max_iterations - (it + 1)"
      "loop_trace ?s2 (Some r) out logged pairs"
      by (elim exE conjE)
    have "model_log s' = model_log s @ ((conversation_history s, Inr r) # logged)
      \<and> conversation_history s' = conversation_history s @ (a # u # pairs)
      \<and> length ((conversation_history s, Inr r) # logged) \<le> max_iterations - it
      \<and> (it < max_iterations \<longrightarrow> (conversation_history s, Inr r) # logged \<noteq> [])
      \<and> loop_trace s prior out ((conversation_history s, Inr r) # logged) (a # u # pairs)"
      using IH(1,2,3) log2 au(2) continue(1) loop_trace_step [OF IH(4) au]
      by simp
    then show ?thesis by (intro exI)
  qed
qed

lemma process_research_query_trace:
  assumes "process_research_query E q s = (answer, s')"
  shows "\<exists>logged pairs final out.
     model_log s' = model_log s @ logged
     \<and> conversation_history s' = conversation_history s @ Message User (Plain q) # pairs @ final
     \<and> logged \<noteq> [] \<and> length logged \<le> 5
     \<and> loop_trace (with_query q s) None out logged pairs
     \<and> closing out answer final"
proof -
  obtain out s1 where loop: "agent_loop E 0 None (with_query q s) = (out, s1)"
    by (cases "agent_loop E 0 None (with_query q s)")
  from agent_loop_trace [OF loop]
  obtain logged pairs where tr:
    "model_log s1 = model_log (with_query q s) @ logged"
    "conversation_history s1 = conversation_history (with_query q s) @ pairs"
    "length logged \<le> max_iterations - 0"
    "0 < max_iterations \<longrightarrow> logged \<noteq> []"
    "loop_trace (with_query q s) None out logged pairs"
    by (elim exE conjE)
  have ne: "logged \<noteq> []"
    using tr(4) by (simp add: max_iterations_def)
  have notnone: "out \<noteq> Inr None"
    using tr(5) ne by (auto simp: loop_trace_def)
  define final where "final =
    (case out of Inr (Some r) \<Rightarrow>
       (if extract_text (content r) '''' = '''' then []
        else [Message Assistant (Plain (extract_text (content r) ''''))])
     | _ \<Rightarrow> [])"
  have s': "conversation_history s' = conversation_history s1 @ final \<and> model_log s' = model_log s1
      \<and> closing out answer final"
  proof (cases out)
    case (Inl e)
    then show ?thesis
      using assms loop
      by (simp add: process_research_query_def research_try_def with_query_def final_def closing_def)
  next
    case (Inr o1)
    with notnone obtain r where r: "out = Inr (Some r)" by (cases o1) auto
    then show ?thesis
      using assms loop
      by (auto simp: process_research_query_def research_try_def with_query_def final_def
            closing_def Let_def split: if_splits)
  qed
  have "model_log s' = model_log s @ logged
     \<and> conversation_history s' = conversation_history s @ Message User (Plain q) # pairs @ final
     \<and> logged \<noteq> [] \<and> length logged \<le> 5
     \<and> loop_trace (with_query q s) None out logged pairs
     \<and> closing out answer final"
    using s' tr(1,2,3,5) ne by (simp add: with_query_def max_iterations_def)
  then show ?thesis by (intro exI)
qed

lemma agent_loop_runs_to_cap:
  assumes "\<forall>n h. \<exists>r. model_api E n h = Inr r \<and> stop_reason r = ''tool_use''
             \<and> (\<exists>c \<in> set (content r). is_web_search_call c)"
    and "agent_loop E it prior s = (out, s')"
  shows "length (model_log s') = length (model_log s) + (max_iterations - it)"
  using assms(2)
proof (induction "max_iterations - it" arbitrary: it prior s)
  case 0
  from "0.prems" show ?case
    by (cases rule: agent_loop_cases) (use "0.hyps" in simp_all)
next
  case (Suc k)
  obtain r0 where r0: "model_api E (length (model_log s)) (conversation_history s) = Inr r0"
    "stop_reason r0 = ''tool_use''" "\<exists>c \<in> set (content r0). is_web_search_call c"
    using assms(1) by blast
  from Suc.prems show ?case
  proof (cases rule: agent_loop_cases)
    case stop
    with Suc.hyps(2) show ?thesis by simp
  next
    case (fail e)
    with r0(1) show ?thesis by simp
  next
    case (final r)
    with r0 show ?thesis by (auto simp: find_None_iff)
  next
    case (continue r c)
    have c: "is_web_search_call c"
      using continue(4) by (simp add: find_holds)
    have "k = max_iterations - (it + 1)"
      using Suc.hyps(2) by simp
    from Suc.hyps(1) [OF this continue(5)] answer_call_frame(1) [OF c, of E "sent E s"]
    show ?thesis
      using continue(1) by simp
  qed
qed

text \<open>
  Claim C1. One invocation of \<open>process_research_query\<close> sends at least one and at
  most five model requests, and when the last of them is answered, the text returned is
  the text of that response (the empty string when it has no text block). When the
  model asks for a search at every request, exactly five requests are sent: the loop
  ends after the fifth, and by the previous sentence the text returned is that of the
  fifth response.
\<close>

theorem process_research_query_bounded:
  "\<exists>logged.
     model_log (snd (process_research_query E q s)) = model_log s @ logged
     \<and> logged \<noteq> [] \<and> length logged \<le> 5
     \<and> (\<forall>r. snd (last logged) = Inr r \<longrightarrow>
           fst (process_research_query E q s) = extract_text (content r) '''')
     \<and> ((\<forall>n h. \<exists>r. model_api E n h = Inr r \<and> stop_reason r = ''tool_use''
             \<and> (\<exists>c \<in> set (content r). is_web_search_call c))
          \<longrightarrow> length logged = 5)"
proof -
  obtain answer s' where run: "process_research_query E q s = (answer, s')"
    by (cases "process_research_query E q s")
  from process_research_query_trace [OF run]
  obtain logged pairs final out where tr:
    "model_log s' = model_log s @ logged"
    "logged \<noteq> []" "length logged \<le> 5"
    "loop_trace (with_query q s) None out logged pairs"
    "closing out answer final"
    by (elim exE conjE)
  have answer_eq: "answer = extract_text (content r) ''''" if "snd (last logged) = Inr r" for r
    using that tr(2,4,5)
    by (auto simp: loop_trace_def closing_def split: sum.splits option.splits)
  have cap: "length logged = 5"
    if always: "\<forall>n h. \<exists>r. model_api E n h = Inr r \<and> stop_reason r = ''tool_use''
             \<and> (\<exists>c \<in> set (content r). is_web_search_call c)"
  proof -
    obtain out1 s1 where loop: "agent_loop E 0 None (with_query q s) = (out1, s1)"
      by (cases "agent_loop E 0 None (with_query q s)")
    have "model_log s' = model_log s1"
      using run loop
      by (auto simp: process_research_query_def research_try_def with_query_def Let_def
               split: sum.splits option.splits if_splits)
    moreover have "length (model_log s1) = length (model_log s) + 5"
      using agent_loop_runs_to_cap [OF always loop]
      by (simp add: with_query_def max_iterations_def)
    moreover have "length (model_log s') = length (model_log s) + length logged"
      by (simp add: tr(1))
    ultimately show ?thesis
      by simp
  qed
  have "model_log (snd (process_research_query E q s)) = model_log s @ logged
     \<and> logged \<noteq> [] \<and> length logged \<le> 5
     \<and> (\<forall>r. snd (last logged) = Inr r \<longrightarrow>
           fst (process_research_query E q s) = extract_text (content r) '''')
     \<and> ((\<forall>n h. \<exists>r. model_api E n h = Inr r \<and> stop_reason r = ''tool_use''
             \<and> (\<exists>c \<in> set (content r). is_web_search_call c))
          \<longrightarrow> length logged = 5)"
    using tr(1,2,3) answer_eq cap by (simp add: run)
  then show ?thesis by (rule exI)
qed

theorem process_research_query_bounded_witness:
  "length (model_log (snd (process_research_query env_always_search ''q'' new_assistant))) = 5
   \<and> fst (process_research_query env_always_search ''q'' new_assistant) = ''step 4''"
  using process_research_query_bounded [of env_always_search "''q''" new_assistant]
  by (simp add: eval_defs env_always_search_def is_web_search_call_def)

section \<open>The cache\<close>

lemma answer_call_keeps_cache:
  "search_results_cache s \<subseteq>\<^sub>m search_results_cache (answer_call E c s)"
  by (cases c) (simp_all add: answer_call_def Let_def web_search_keeps_cache)

lemma agent_loop_keeps_cache:
  assumes "agent_loop E it prior s = (out, s')"
  shows "search_results_cache s \<subseteq>\<^sub>m search_results_cache s'"
  using assms
proof (induction "max_iterations - it" arbitrary: it prior s)
  case 0
  from "0.prems" show ?case
    by (cases rule: agent_loop_cases) (use "0.hyps" in simp_all)
next
  case (Suc k)
  from Suc.prems show ?case
  proof (cases rule: agent_loop_cases)
    case (continue r c)
    have "k = max_iterations - (it + 1)"
      using Suc.hyps(2) by simp
    from Suc.hyps(1) [OF this continue(5)]
    have "search_results_cache (answer_call E c (sent E s)) \<subseteq>\<^sub>m search_results_cache s'" .
    moreover have "search_results_cache s \<subseteq>\<^sub>m search_results_cache (answer_call E c (sent E s))"
      using answer_call_keeps_cache [of "sent E s" E c] by simp
    ultimately show ?thesis
      by (rule map_le_trans [rotated])
  qed simp_all
qed

lemma process_research_query_keeps_cache:
  "search_results_cache s \<subseteq>\<^sub>m search_results_cache (snd (process_research_query E q s))"
proof -
  obtain out s1 where loop: "agent_loop E 0 None (with_query q s) = (out, s1)"
    by (cases "agent_loop E 0 None (with_query q s)")
  have "search_results_cache (snd (process_research_query E q s)) = search_results_cache s1"
    using loop
    by (auto simp: process_research_query_def research_try_def with_query_def Let_def
             split: sum.splits option.splits)
  then show ?thesis
    using agent_loop_keeps_cache [OF loop] by (simp add: with_query_def)
qed

lemma session_keeps_cache:
  "search_results_cache s \<subseteq>\<^sub>m search_results_cache (foldl (run_call E) s calls)"
proof (induction calls arbitrary: s)
  case Nil
  show ?case by simp
next
  case (Cons c calls)
  have "search_results_cache s \<subseteq>\<^sub>m search_results_cache (run_call E s c)"
    by (cases c) (simp_all add: process_research_query_keeps_cache reset_conversation_def)
  then show ?case
    using Cons [of "run_call E s c"] by (auto intro: map_le_trans)
qed

lemma cached_stays_cached:
  assumes "search_results_cache s (cache_key E query num_results) = Some found"
  shows "web_search E query num_results (foldl (run_call E) s calls)
           = (found, foldl (run_call E) s calls)"
proof -
  have "search_results_cache (foldl (run_call E) s calls) (cache_key E query num_results) = Some found"
    using session_keeps_cache [of s E calls] assms
    by (auto simp: map_le_def dom_def)
  then show ?thesis
    by (rule web_search_hit)
qed

text \<open>
  Claim C3, as amended. The claim speaks of every (query, count) pair, but only a request
  that raised nothing is stored in the cache. So: when the pair is not cached and the
  first invocation's request succeeds, any number of invocations with the pair return
  that same result and issue one GET in all; when the pair is cached, they issue none,
  and the pair stays cached through any queries and resets that follow, so that a later
  invocation still returns the cached list without a GET; and when the request of an
  invocation fails, the invocation returns the empty list,
  the cache is what it was and the GET has been issued, so that the next invocation
  with the pair asks the provider again.
\<close>

theorem cached_search_is_not_repeated:
  "(search_results_cache s (cache_key E query num_results) = None
      \<and> web_search_try E query num_results s = (Inr found, s1)
    \<longrightarrow> web_search_repeat E query num_results (Suc k) s = (replicate (Suc k) found, s1)
        \<and> net_log s1 = net_log s @ [(query, num_results)])
   \<and> (search_results_cache s (cache_key E query num_results) = Some found
    \<longrightarrow> web_search_repeat E query num_results k s = (replicate k found, s)
        \<and> web_search E query num_results (foldl (run_call E) s calls)
             = (found, foldl (run_call E) s calls))
   \<and> (search_results_cache s (cache_key E query num_results) = None
      \<and> web_search_try E query num_results s = (Inl e, s1)
    \<longrightarrow> web_search E query num_results s = ([], s1)
        \<and> search_results_cache s1 = search_results_cache s
        \<and> net_log s1 = net_log s @ [(query, num_results)])"
proof (intro conjI impI)
  assume a: "search_results_cache s (cache_key E query num_results) = None
      \<and> web_search_try E query num_results s = (Inr found, s1)"
  then have first: "web_search E query num_results s = (found, s1)"
    by (simp add: web_search_def)
  have "search_results_cache s1 (cache_key E query num_results) = Some found"
    using a web_search_try_stores by blast
  then have "web_search_repeat E query num_results k s1 = (replicate k found, s1)"
    by (rule web_search_repeat_hit)
  with first show "web_search_repeat E query num_results (Suc k) s = (replicate (Suc k) found, s1)"
    by simp
  show "net_log s1 = net_log s @ [(query, num_results)]"
    using a web_search_try_frame by blast
next
  assume c: "search_results_cache s (cache_key E query num_results) = Some found"
  then show "web_search_repeat E query num_results k s = (replicate k found, s)"
    by (rule web_search_repeat_hit)
  from c show "web_search E query num_results (foldl (run_call E) s calls)
             = (found, foldl (run_call E) s calls)"
    by (rule cached_stays_cached)
next
  assume a: "search_results_cache s (cache_key E query num_results) = None
      \<and> web_search_try E query num_results s = (Inl e, s1)"
  then show "web_search E query num_results s = ([], s1)"
    by (simp add: web_search_def)
  from a have s1: "s1 = s\<lparr>net_log := net_log s @ [(query, num_results)]\<rparr>"
    using web_search_try_raises by blast
  show "search_results_cache s1 = search_results_cache s"
    by (simp add: s1)
  show "net_log s1 = net_log s @ [(query, num_results)]"
    by (simp add: s1)
qed

lemma first_search:
  "web_search_try env_search_once (JStr ''isabelle'') (JInt 2) new_assistant =
     (Inr two_hits,
      new_assistant\<lparr>net_log := [(JStr ''isabelle'', JInt 2)],
        search_results_cache := [''isabelle_2'' \<mapsto> two_hits]\<rparr>)"
  by (simp add: eval_defs env_search_once_def three_hits_def two_hits_def)

theorem cached_search_is_not_repeated_witness:
  "fst (web_search_repeat env_search_once (JStr ''isabelle'') (JInt 2) 3 new_assistant)
     = [two_hits, two_hits, two_hits]
   \<and> net_log (snd (web_search_repeat env_search_once (JStr ''isabelle'') (JInt 2) 3 new_assistant))
     = [(JStr ''isabelle'', JInt 2)]"
proof -
  have miss: "search_results_cache new_assistant
      (cache_key env_search_once (JStr ''isabelle'') (JInt 2)) = None"
    by (simp add: new_assistant_def)
  from cached_search_is_not_repeated [of new_assistant env_search_once "JStr ''isabelle''" "JInt 2"
      two_hits _ 2 _ _, THEN conjunct1, rule_format, OF conjI, OF miss first_search]
  show ?thesis
    by (simp add: numeral_3_eq_3 new_assistant_def)
qed

text \<open>
  Claim C3 as stated fails where the first request fails: two invocations with one pair
  issue two GETs, and the second returns something else than the first.
\<close>

theorem uncached_failure_counterexample:
  "fst (web_search_repeat env_flaky (JStr ''isabelle'') (JInt 2) 2 new_assistant) = [[], two_hits]
   \<and> net_log (snd (web_search_repeat env_flaky (JStr ''isabelle'') (JInt 2) 2 new_assistant))
     = [(JStr ''isabelle'', JInt 2), (JStr ''isabelle'', JInt 2)]"
  by (simp add: eval_defs env_flaky_def three_hits_def two_hits_def numeral_2_eq_2)

section \<open>No dangling tool_use\<close>

lemma no_dangling_Cons:
  "tool_use_ids m = [] \<Longrightarrow> no_dangling (m # ms) = no_dangling ms"
  by (cases ms) simp_all

lemma no_dangling_append:
  "no_dangling xs \<Longrightarrow> no_dangling ys \<Longrightarrow> no_dangling (xs @ ys)"
proof (induction xs rule: no_dangling.induct)
  case 1
  then show ?case by simp
next
  case (2 m)
  then show ?case by (simp add: no_dangling_Cons)
next
  case (3 m "next" rest)
  then show ?case by simp
qed

lemma tool_pairs_no_dangling: "tool_pairs ps \<Longrightarrow> no_dangling ps"
proof (induction ps rule: tool_pairs.induct)
  case 1
  then show ?case by simp
next
  case (2 a)
  then show ?case by simp
next
  case (3 a u rest)
  then have "tool_pair a u" "no_dangling rest" by simp_all
  then show ?case
    by (auto simp: tool_pair_def no_dangling_Cons)
qed

lemma paired_query:
  assumes "paired s"
  shows "paired (snd (process_research_query E q s))"
proof -
  obtain answer s' where run: "process_research_query E q s = (answer, s')"
    by (cases "process_research_query E q s")
  from process_research_query_trace [OF run]
  obtain logged pairs final out where tr:
    "model_log s' = model_log s @ logged"
    "conversation_history s' = conversation_history s @ Message User (Plain q) # pairs @ final"
    "loop_trace (with_query q s) None out logged pairs"
    "closing out answer final"
    by (elim exE conjE)
  have h0: "no_dangling (conversation_history s)"
    using assms by (simp add: paired_def)
  have hq: "no_dangling (conversation_history (with_query q s))"
    using no_dangling_append [OF h0, of "[Message User (Plain q)]"] by (simp add: with_query_def)
  have fin: "no_dangling final"
    using tr(4) by (auto simp: closing_def split: sum.splits option.splits if_splits)
  have "tool_pairs pairs"
    using tr(3) by (simp add: loop_trace_def)
  then have "no_dangling (pairs @ final)"
    using fin by (simp add: no_dangling_append tool_pairs_no_dangling)
  with hq have "no_dangling (conversation_history (with_query q s) @ (pairs @ final))"
    by (rule no_dangling_append)
  then have 1: "no_dangling (conversation_history s')"
    using tr(2) by (simp add: with_query_def)
  have 2: "no_dangling (fst p)" if "p \<in> set (model_log s')" for p
  proof (cases "p \<in> set (model_log s)")
    case True
    then show ?thesis using assms by (simp add: paired_def)
  next
    case False
    with that tr(1) have "p \<in> set logged" by simp
    then obtain ps where "fst p = conversation_history (with_query q s) @ ps" "tool_pairs ps"
      using tr(3) unfolding loop_trace_def by fast
    then show ?thesis
      using hq by (simp add: no_dangling_append tool_pairs_no_dangling)
  qed
  from 1 2 show ?thesis
    by (simp add: paired_def run)
qed

lemma paired_run_call: "paired s \<Longrightarrow> paired (run_call E s c)"
  by (cases c) (simp_all add: paired_query, simp add: paired_def reset_conversation_def)

lemma paired_foldl: "paired s \<Longrightarrow> paired (foldl (run_call E) s calls)"
  by (induction calls arbitrary: s) (simp_all add: paired_run_call)

text \<open>
  Claim C2. In a session, whatever the two providers answer, the messages of every model
  request that was sent have no dangling tool_use: each tool_use turn is immediately
  followed by the tool_result turn with its identifier. The same holds of the history
  the session ends with.
\<close>

theorem no_dangling_tool_use:
  "(\<forall>p \<in> set (model_log (session E calls)). no_dangling (fst p))
   \<and> no_dangling (conversation_history (session E calls))"
proof -
  have "paired new_assistant"
    by (simp add: paired_def new_assistant_def)
  then have "paired (session E calls)"
    unfolding session_def by (rule paired_foldl)
  then show ?thesis
    by (simp add: paired_def)
qed

theorem no_dangling_tool_use_witness:
  "length (model_log (session env_search_once [Query ''q''])) = 2
   \<and> length (fst (model_log (session env_search_once [Query ''q'']) ! 1)) = 3
   \<and> no_dangling (fst (model_log (session env_search_once [Query ''q'']) ! 1))"
  using no_dangling_tool_use [of env_search_once "[Query ''q'']"]
  by (simp add: session_def eval_defs env_search_once_def search_request_def final_answer_def
        three_hits_def)

section \<open>A response without a search request\<close>

lemma agent_loop_final:
  assumes "agent_loop E it prior s = (out, s')"
    and "model_log s' = model_log s @ logged"
    and "(h, Inr r) \<in> set logged"
    and "\<forall>c \<in> set (content r). \<not> is_web_search_call c"
  shows "out = Inr (Some r) \<and> conversation_history s' = h \<and> last logged = (h, Inr r)"
  using assms(1,2,3)
proof (induction "max_iterations - it" arbitrary: it prior s logged)
  case 0
  from "0.prems"(1) show ?case
    by (cases rule: agent_loop_cases) (use "0.hyps" "0.prems"(2,3) in simp_all)
next
  case (Suc k)
  from Suc.prems(1) show ?case
  proof (cases rule: agent_loop_cases)
    case stop
    with Suc.prems(2,3) show ?thesis by simp
  next
    case (fail e)
    with Suc.prems(2,3) show ?thesis by auto
  next
    case (final r0)
    with Suc.prems(2,3) show ?thesis by auto
  next
    case (continue r0 c)
    let ?s2 = "answer_call E c (sent E s)"
    have c: "is_web_search_call c" "c \<in> set (content r0)"
      using continue(4) by (simp_all add: find_holds)
    have log2: "model_log ?s2 = model_log s @ [(conversation_history s, Inr r0)]"
      using answer_call_frame(1) [OF c(1), of E "sent E s"] continue(2) by simp
    obtain logged' where l': "model_log s' = model_log ?s2 @ logged'"
      using agent_loop_trace [OF continue(5)] by blast
    then have logged: "logged = (conversation_history s, Inr r0) # logged'"
      using Suc.prems(2) log2 by simp
    have "r \<noteq> r0"
      using c assms(4) by auto
    then have mem: "(h, Inr r) \<in> set logged'"
      using Suc.prems(3) logged by auto
    have "k = max_iterations - (it + 1)"
      using Suc.hyps(2) by simp
    from Suc.hyps(1) [OF this continue(5) l' mem] mem
    show ?thesis
      by (auto simp: logged)
  qed
qed

text \<open>
  Claim C6, as amended. When a response of the invocation holds no tool_use block named
  web_search, whatever other tool it names, \<open>handle_tool_use\<close> does nothing on it
  (no search, no turn appended), it is the last response of the invocation, and the
  answer is its text, appended as an assistant turn unless it is empty.
\<close>

theorem loop_ends_without_web_search_call:
  assumes "process_research_query E q s = (answer, s')"
    and "model_log s' = model_log s @ logged"
    and "(h, Inr r) \<in> set logged"
    and "\<forall>c \<in> set (content r). \<not> is_web_search_call c"
  shows "(\<forall>s1. handle_tool_use E r s1 = (False, s1))
     \<and> last logged = (h, Inr r)
     \<and> answer = extract_text (content r) ''''
     \<and> conversation_history s' =
         h @ (if answer = '''' then [] else [Message Assistant (Plain answer)])"
proof -
  obtain out s1 where loop: "agent_loop E 0 None (with_query q s) = (out, s1)"
    by (cases "agent_loop E 0 None (with_query q s)")
  have same: "model_log s' = model_log s1"
    using assms(1) loop
    by (auto simp: process_research_query_def research_try_def with_query_def Let_def
             split: sum.splits option.splits if_splits)
  then have "model_log s1 = model_log (with_query q s) @ logged"
    using assms(2) by (simp add: with_query_def)
  from agent_loop_final [OF loop this assms(3,4)]
  have fin: "out = Inr (Some r)" "conversation_history s1 = h" "last logged = (h, Inr r)"
    by simp_all
  have "find is_web_search_call (content r) = None"
    using assms(4) by (simp add: find_None_iff)
  then have none: "\<forall>s1. handle_tool_use E r s1 = (False, s1)"
    by (simp add: handle_tool_use_def handle_tool_use_items_find)
  have "answer = extract_text (content r) ''''
     \<and> conversation_history s' =
         h @ (if answer = '''' then [] else [Message Assistant (Plain answer)])"
    using assms(1) loop fin(1,2)
    by (auto simp: process_research_query_def research_try_def with_query_def Let_def)
  with none fin(3) show ?thesis by simp
qed

lemma unknown_tool_run:
  "process_research_query env_unknown_tool ''q'' new_assistant =
     (''Let me compute.'',
      new_assistant\<lparr>conversation_history :=
          [Message User (Plain ''q''), Message Assistant (Plain ''Let me compute.'')],
        model_log := [([Message User (Plain ''q'')], Inr unknown_tool_request)]\<rparr>)"
  by (simp add: eval_defs env_unknown_tool_def unknown_tool_request_def)

theorem loop_ends_without_web_search_call_witness:
  "fst (process_research_query env_unknown_tool ''q'' new_assistant) = ''Let me compute.''
   \<and> conversation_history (snd (process_research_query env_unknown_tool ''q'' new_assistant)) =
       [Message User (Plain ''q''), Message Assistant (Plain ''Let me compute.'')]
   \<and> net_log (snd (process_research_query env_unknown_tool ''q'' new_assistant)) = []
   \<and> handle_tool_use env_unknown_tool unknown_tool_request new_assistant = (False, new_assistant)"
proof -
  have 1: "model_log (new_assistant\<lparr>conversation_history :=
          [Message User (Plain ''q''), Message Assistant (Plain ''Let me compute.'')],
        model_log := [([Message User (Plain ''q'')], Inr unknown_tool_request)]\<rparr>) =
      model_log new_assistant @ [([Message User (Plain ''q'')], Inr unknown_tool_request)]"
    by (simp add: new_assistant_def)
  have 2: "([Message User (Plain ''q'')], Inr unknown_tool_request)
      \<in> set [([Message User (Plain ''q'')], Inr unknown_tool_request)]"
    by simp
  have 3: "\<forall>c \<in> set (content unknown_tool_request). \<not> is_web_search_call c"
    by (simp add: unknown_tool_request_def is_web_search_call_def)
  from loop_ends_without_web_search_call [OF unknown_tool_run 1 2 3]
  show ?thesis
    by (simp add: unknown_tool_run) (simp add: new_assistant_def)
qed

text \<open>
  Claim C6 as stated fails on a response that names an unknown tool first and a search
  second: the search is dispatched, its result is appended, and the loop goes on to a
  second model request.
\<close>

theorem unrecognized_tool_counterexample:
  "content mixed_request ! 0 = ToolUseItem ''toolu_1'' ''calculator'' [(''expression'', JStr ''1+1'')]
   \<and> net_log (snd (process_research_query env_mixed ''q'' new_assistant)) =
       [(JStr ''isabelle'', JInt 5)]
   \<and> length (model_log (snd (process_research_query env_mixed ''q'' new_assistant))) = 2
   \<and> tool_result_ids (conversation_history
        (snd (process_research_query env_mixed ''q'' new_assistant)) ! 2) = [''toolu_2'']"
  by (simp add: eval_defs env_mixed_def mixed_request_def final_answer_def three_hits_def)

section \<open>A search that fails\<close>

lemma slice_subset: "py_slice_to xs n = Inr kept \<Longrightarrow> set kept \<subseteq> set xs"
  by (auto simp: py_slice_to_def split: json.splits if_splits dest: in_set_takeD)

lemma unreadable_malformed: "unreadable payload num_results \<Longrightarrow> malformed payload"
  by (auto simp: unreadable_def malformed_def split: option.splits sum.splits
           dest: slice_subset)

lemma failing_claimed_failure: "failing outcome num_results \<Longrightarrow> claimed_failure outcome"
  by (auto simp: failing_def claimed_failure_def raise_for_status_def unreadable_malformed
           split: http_outcome.splits http_body.splits)

lemma process_items_objects:
  "process_items items acc = Inr found \<Longrightarrow> list_all is_object items"
  by (induction items arbitrary: acc) (auto simp: is_object_def split: json.splits)

lemma process_items_chars:
  "process_items (map (\<lambda>c. JStr [c]) cs) acc = Inr found \<Longrightarrow> cs = []"
  by (cases cs) simp_all

lemma read_results_unreadable:
  assumes "unreadable payload num_results" and "read_results payload num_results = Inr found"
  shows "found = []"
proof (cases "web_results payload")
  case None
  obtain d where d: "payload = JObj d"
    using assms(2) by (cases payload) (simp_all add: read_results_def py_index_def)
  obtain web where web: "map_of d ''web'' = Some web"
    using assms(2) d by (cases "map_of d ''web''") (simp_all add: read_results_def py_index_def)
  obtain w where w: "web = JObj w"
    using assms(2) d web by (cases web) (simp_all add: read_results_def py_index_def)
  obtain f where f: "map_of w ''results'' = Some f"
    using assms(2) d web w
    by (cases "map_of w ''results''") (simp_all add: read_results_def py_index_def)
  have items: "(case py_slice_items f num_results of Inl e \<Rightarrow> Inl e
      | Inr items \<Rightarrow> process_items items []) = Inr found"
    using assms(2) d web w f by (simp add: read_results_def py_index_def)
  have notarr: "\<And>xs. f \<noteq> JArr xs"
    using None d web w f by (auto simp: web_results_def)
  show ?thesis
  proof (cases f)
    case (JStr str)
    with items obtain cs where "process_items (map (\<lambda>c. JStr [c]) cs) [] = Inr found"
      by (auto simp: py_slice_items_def split: sum.splits)
    from this process_items_chars [OF this] show ?thesis by simp
  next
    case (JArr xs)
    with notarr [of xs] show ?thesis by simp
  qed (use items in \<open>simp_all add: py_slice_items_def\<close>)
next
  case (Some items)
  then obtain d w where shape: "payload = JObj d" "map_of d ''web'' = Some (JObj w)"
    "map_of w ''results'' = Some (JArr items)"
    by (auto simp: web_results_def split: json.splits option.splits)
  obtain kept where kept: "py_slice_to items num_results = Inr kept"
    "process_items kept [] = Inr found"
    using assms(2) shape
    by (auto simp: read_results_def py_index_def py_slice_items_def split: sum.splits)
  have "\<exists>item \<in> set kept. \<not> is_object item"
    using assms(1) Some kept(1) by (simp add: unreadable_def)
  moreover have "list_all is_object kept"
    using kept(2) by (rule process_items_objects)
  ultimately show ?thesis
    by (simp add: list_all_iff)
qed

lemma web_search_failing:
  assumes "search_results_cache s (cache_key E query num_results) = None"
    and "failing (http_get E (length (net_log s)) query num_results) num_results"
  shows "fst (web_search E query num_results s) = []"
proof (cases "http_get E (length (net_log s)) query num_results")
  case ConnectionFails
  with assms(1) show ?thesis
    by (simp add: web_search_def web_search_try_def Let_def)
next
  case (Response status_code body)
  show ?thesis
  proof (cases "raise_for_status status_code")
    case True
    with assms(1) Response show ?thesis
      by (simp add: web_search_def web_search_try_def Let_def)
  next
    case False
    show ?thesis
    proof (cases body)
      case InvalidJson
      with assms(1) Response False show ?thesis
        by (simp add: web_search_def web_search_try_def Let_def)
    next
      case (Payload payload)
      then have m: "unreadable payload num_results"
        using assms(2) Response False by (simp add: failing_def)
      show ?thesis
        using assms(1) Response False Payload read_results_unreadable [OF m]
        by (auto simp: web_search_def web_search_try_def Let_def
                 split: sum.splits bool.splits)
    qed
  qed
qed

text \<open>
  Claim C7, as amended. When the pair is not cached and the request fails
  (\<^verbatim>\<open>requests.get\<close> raises), or the status is a client or server error (4xx or 5xx,
  the statuses on which \<^verbatim>\<open>raise_for_status\<close> raises), or the body is not JSON, or the
  payload is unreadable for the count, then: this is one of the failures the claim speaks
  of; \<open>web_search\<close> returns the empty list, which the formatter turns into the fixed
  sentence; and an iteration of the loop whose response asks for that search appends the
  tool_use turn and the tool_result turn holding the sentence, and goes on with the next
  iteration.
\<close>

theorem failed_search_does_not_abort:
  assumes "search_results_cache s (cache_key E query num_results) = None"
    and "failing (http_get E (length (net_log s)) query num_results) num_results"
  shows "claimed_failure (http_get E (length (net_log s)) query num_results)
     \<and> fst (web_search E query num_results s) = []
     \<and> format_search_results E (fst (web_search E query num_results s)) = ''No search results found.''
     \<and> (\<forall>it prior r i nm inp.
          it < max_iterations
          \<and> model_api E (length (model_log s)) (conversation_history s) = Inr r
          \<and> stop_reason r = ''tool_use''
          \<and> find is_web_search_call (content r) = Some (ToolUseItem i nm inp)
          \<and> py_get inp ''query'' (JStr '''') = query
          \<and> py_get inp ''num_results'' (JInt 5) = num_results
          \<longrightarrow> (\<exists>s2. agent_loop E it prior s = agent_loop E (it + 1) (Some r) s2
                 \<and> conversation_history s2 = conversation_history s @
                      [Message Assistant (Blocks [ToolUseBlock i nm inp]),
                       Message User (Blocks [ToolResultBlock i ''No search results found.''])]
                 \<and> model_log s2 = model_log s @ [(conversation_history s, Inr r)]))"
proof -
  have empty: "fst (web_search E query num_results s) = []"
    using assms by (rule web_search_failing)
  have loop: "\<exists>s2. agent_loop E it prior s = agent_loop E (it + 1) (Some r) s2
                 \<and> conversation_history s2 = conversation_history s @
                      [Message Assistant (Blocks [ToolUseBlock i nm inp]),
                       Message User (Blocks [ToolResultBlock i ''No search results found.''])]
                 \<and> model_log s2 = model_log s @ [(conversation_history s, Inr r)]"
    if h: "it < max_iterations"
      "model_api E (length (model_log s)) (conversation_history s) = Inr r"
      "stop_reason r = ''tool_use''"
      "find is_web_search_call (content r) = Some (ToolUseItem i nm inp)"
      "py_get inp ''query'' (JStr '''') = query"
      "py_get inp ''num_results'' (JInt 5) = num_results"
    for it prior r i nm inp
  proof -
    let ?c = "ToolUseItem i nm inp"
    let ?s2 = "answer_call E ?c (sent E s)"
    have c: "is_web_search_call ?c"
      using h(4) by (simp add: find_holds)
    have "fst (web_search E query num_results (sent E s)) = []"
      using assms by (intro web_search_failing) simp_all
    then have hist: "conversation_history ?s2 = conversation_history s @
                      [Message Assistant (Blocks [ToolUseBlock i nm inp]),
                       Message User (Blocks [ToolResultBlock i ''No search results found.''])]"
      using h(5,6) by (simp add: answer_call_def Let_def format_search_results_def)
    have log: "model_log ?s2 = model_log s @ [(conversation_history s, Inr r)]"
      using answer_call_frame(1) [OF c, of E "sent E s"] h(2) by simp
    have "agent_loop E it prior s = agent_loop E (it + 1) (Some r) ?s2"
      using h(1,2,3,4)
      by (subst agent_loop.simps)
         (simp add: create_message_sent handle_tool_use_def handle_tool_use_items_find)
    with hist log show ?thesis by blast
  qed
  show ?thesis
    using empty loop failing_claimed_failure [OF assms(2)]
    by (simp add: format_search_results_def)
qed

theorem failed_search_does_not_abort_witness:
  "fst (web_search env_search_error (JStr ''isabelle'') (JInt 2) new_assistant) = []
   \<and> fst (process_research_query env_search_error ''q'' new_assistant) = ''Done.''
   \<and> conversation_history (snd (process_research_query env_search_error ''q'' new_assistant)) =
       search_turns @ [Message Assistant (Plain ''Done.'')]"
  using failed_search_does_not_abort [of new_assistant env_search_error "JStr ''isabelle''" "JInt 2"]
  by (simp add: eval_defs env_search_error_def search_request_def final_answer_def
        search_turns_def failing_def)

text \<open>
  Claim C7 as stated fails on two of the failures it names. A response whose status is
  not 2xx and on which \<^verbatim>\<open>raise_for_status\<close> does not raise (here 300) is read like
  any other, and its hits are returned. A malformed payload whose items that are not
  objects come after the count is read up to the count, and its hits are returned.
\<close>

theorem non_2xx_body_counterexample:
  "claimed_failure (http_get env_multiple_choices 0 (JStr ''isabelle'') (JInt 2))
   \<and> fst (web_search env_multiple_choices (JStr ''isabelle'') (JInt 2) new_assistant) = two_hits
   \<and> claimed_failure (http_get env_junk_tail 0 (JStr ''isabelle'') (JInt 1))
   \<and> fst (web_search env_junk_tail (JStr ''isabelle'') (JInt 1) new_assistant) =
       [\<lparr>title = JStr ''A'', url = JStr ''http://a'', description = JStr ''first''\<rparr>]"
  by (simp add: eval_defs env_multiple_choices_def env_junk_tail_def three_hits_def two_hits_def
        hit_and_junk_def claimed_failure_def malformed_def web_results_def is_object_def)

section \<open>A model request that fails\<close>

lemma final_response_run:
  assumes "model_api E (length (model_log s)) (conversation_history s @ [Message User (Plain q)]) = Inr r"
    and "stop_reason r \<noteq> ''tool_use''"
  shows "fst (process_research_query E q s) = extract_text (content r) ''''"
  using assms
  by (simp add: process_research_query_def research_try_def agent_loop.simps create_message_def
        max_iterations_def Let_def)

lemma failure_is_last:
  assumes "loop_trace s0 prior out logged pairs" and "(h, Inl e) \<in> set logged"
  shows "last logged = (h, Inl e) \<and> out = Inl e"
proof -
  have ne: "logged \<noteq> []"
    using assms(2) by auto
  have "(h, Inl e) \<notin> set (butlast logged)"
    using assms(1) unfolding loop_trace_def by fastforce
  moreover have "set logged = insert (last logged) (set (butlast logged))"
    using ne by (metis append_butlast_last_id list.simps(15) rotate1.simps(2) set_rotate1)
  ultimately have l: "last logged = (h, Inl e)"
    using assms(2) by auto
  then have "out = Inl e"
    using assms(1) ne
    by (auto simp: loop_trace_def split: sum.splits option.splits)
  with l show ?thesis by simp
qed

text \<open>
  Claim C8. When a model request of the invocation raises, the answer is the handler's
  prefix for the kind of exception followed by the exception's text; the failing request
  is the last one of the invocation and every earlier one was answered (nothing is
  sent again); and the object can be used again: a next query that the model answers
  at once returns that answer.
\<close>

theorem model_failure_returned_as_answer:
  assumes "process_research_query E q s = (answer, s')"
    and "model_log s' = model_log s @ logged"
    and "(h, Inl e) \<in> set logged"
  shows "answer = (case e of
            APIError m \<Rightarrow> ''Anthropic API Error: '' @ m
          | RequestException m \<Rightarrow> ''Network Error: '' @ m
          | OtherException m \<Rightarrow> ''Unexpected Error: '' @ m)
     \<and> last logged = (h, Inl e)
     \<and> (\<forall>p \<in> set (butlast logged). \<exists>r. snd p = Inr r)
     \<and> (\<forall>q2 r. model_api E (length (model_log s')) (conversation_history s' @ [Message User (Plain q2)]) = Inr r
            \<and> stop_reason r \<noteq> ''tool_use''
          \<longrightarrow> fst (process_research_query E q2 s') = extract_text (content r) '''')"
proof -
  from process_research_query_trace [OF assms(1)]
  obtain logged0 pairs final out where tr:
    "model_log s' = model_log s @ logged0"
    "loop_trace (with_query q s) None out logged0 pairs"
    "closing out answer final"
    by (elim exE conjE)
  have eq: "logged0 = logged"
    using tr(1) assms(2) by simp
  from failure_is_last [OF tr(2) assms(3) [folded eq]]
  have l: "last logged = (h, Inl e)" "out = Inl e"
    by (simp_all add: eq)
  have a: "answer = error_msg e"
    using tr(3) l(2) by (simp add: closing_def)
  have b: "\<forall>p \<in> set (butlast logged). \<exists>r. snd p = Inr r"
    using tr(2) by (simp add: loop_trace_def eq)
  show ?thesis
    using a l(1) b by (simp add: error_msg_def final_response_run)
qed

lemma failed_run:
  "process_research_query env_recovers ''q'' new_assistant =
     (''Anthropic API Error: overloaded'',
      new_assistant\<lparr>conversation_history := [Message User (Plain ''q'')],
        model_log := [([Message User (Plain ''q'')], Inl (APIError ''overloaded''))]\<rparr>)"
  by (simp add: eval_defs env_recovers_def)

theorem model_failure_returned_as_answer_witness:
  "fst (process_research_query env_recovers ''q'' new_assistant) = ''Anthropic API Error: overloaded''
   \<and> length (model_log (snd (process_research_query env_recovers ''q'' new_assistant))) = 1
   \<and> fst (process_research_query env_recovers ''again''
            (snd (process_research_query env_recovers ''q'' new_assistant))) = ''Done.''"
proof -
  have 1: "model_log (new_assistant\<lparr>conversation_history := [Message User (Plain ''q'')],
        model_log := [([Message User (Plain ''q'')], Inl (APIError ''overloaded''))]\<rparr>) =
      model_log new_assistant @ [([Message User (Plain ''q'')], Inl (APIError ''overloaded''))]"
    by (simp add: new_assistant_def)
  have 2: "([Message User (Plain ''q'')], Inl (APIError ''overloaded''))
      \<in> set [([Message User (Plain ''q'')], Inl (APIError ''overloaded'') :: exn + response)]"
    by simp
  note th = model_failure_returned_as_answer [OF failed_run 1 2]
  note usable = th [THEN conjunct2, THEN conjunct2, THEN conjunct2, rule_format,
      of "''again''" final_answer]
  have "fst (process_research_query env_recovers ''again''
          (new_assistant\<lparr>conversation_history := [Message User (Plain ''q'')],
             model_log := [([Message User (Plain ''q'')], Inl (APIError ''overloaded''))]\<rparr>))
       = extract_text (content final_answer) []"
    by (rule usable) (simp add: env_recovers_def final_answer_def new_assistant_def)
  then show ?thesis
    by (simp add: failed_run final_answer_def)
qed

lemma tool_pairs_last:
  "tool_pairs pairs \<Longrightarrow> pairs \<noteq> [] \<Longrightarrow> \<exists>ps c. pairs = ps @ [Message User c]"
proof (induction pairs rule: tool_pairs.induct)
  case (3 a u rest)
  show ?case
  proof (cases "rest = []")
    case True
    with 3 have "a # u # rest = [a] @ [u]" "\<exists>c. u = Message User c"
      by (auto simp: tool_pair_def)
    then show ?thesis by metis
  next
    case False
    with 3 obtain ps c where "rest = ps @ [Message User c]" by auto
    then have "a # u # rest = (a # u # ps) @ [Message User c]" by simp
    then show ?thesis by blast
  qed
qed simp_all

lemma tool_pairs_no_plain:
  "tool_pairs pairs \<Longrightarrow> Message r (Plain x) \<notin> set pairs"
  by (induction pairs rule: tool_pairs.induct) (auto simp: tool_pair_def)

text \<open>
  Claim C10. When a model request of the invocation raises, the history is the one of
  before, the user turn of the query, and the tool pairs completed so far: the error
  string is not among them. So the history ends with a user turn, and the next query
  appends a second user turn right after it.
\<close>

theorem failed_query_leaves_user_turn:
  assumes "process_research_query E q s = (answer, s')"
    and "model_log s' = model_log s @ logged"
    and "(h, Inl e) \<in> set logged"
  shows "(\<exists>pairs. conversation_history s' = conversation_history s @ Message User (Plain q) # pairs
            \<and> tool_pairs pairs \<and> Message Assistant (Plain answer) \<notin> set pairs)
     \<and> (\<exists>earlier c. conversation_history s' = earlier @ [Message User c])
     \<and> (\<forall>q2. \<exists>earlier c rest.
            conversation_history (snd (process_research_query E q2 s')) =
              earlier @ [Message User c, Message User (Plain q2)] @ rest)"
proof -
  from process_research_query_trace [OF assms(1)]
  obtain logged0 pairs final out where tr:
    "model_log s' = model_log s @ logged0"
    "conversation_history s' = conversation_history s @ Message User (Plain q) # pairs @ final"
    "loop_trace (with_query q s) None out logged0 pairs"
    "closing out answer final"
    by (elim exE conjE)
  have eq: "logged0 = logged"
    using tr(1) assms(2) by simp
  from failure_is_last [OF tr(3) assms(3) [folded eq]]
  have "out = Inl e" by simp
  then have "final = []"
    using tr(4) by (simp add: closing_def)
  then have hist: "conversation_history s' = conversation_history s @ Message User (Plain q) # pairs"
    using tr(2) by simp
  have tp: "tool_pairs pairs"
    using tr(3) by (simp add: loop_trace_def)
  have 1: "\<exists>pairs. conversation_history s' = conversation_history s @ Message User (Plain q) # pairs
            \<and> tool_pairs pairs \<and> Message Assistant (Plain answer) \<notin> set pairs"
    using hist tp tool_pairs_no_plain [OF tp] by blast
  obtain earlier c where last: "conversation_history s' = earlier @ [Message User c]"
  proof (cases "pairs = []")
    case True
    then have "conversation_history s' = conversation_history s @ [Message User (Plain q)]"
      using hist by simp
    then show ?thesis by (rule that)
  next
    case False
    from tool_pairs_last [OF tp this] obtain ps c where "pairs = ps @ [Message User c]"
      by blast
    then have "conversation_history s' =
        (conversation_history s @ Message User (Plain q) # ps) @ [Message User c]"
      using hist by simp
    then show ?thesis by (rule that)
  qed
  have 3: "\<exists>earlier c rest.
            conversation_history (snd (process_research_query E q2 s')) =
              earlier @ [Message User c, Message User (Plain q2)] @ rest" for q2
  proof -
    obtain answer2 s2 where run2: "process_research_query E q2 s' = (answer2, s2)"
      by (cases "process_research_query E q2 s'")
    from process_research_query_trace [OF run2]
    obtain pairs2 final2 where
      "conversation_history s2 = conversation_history s' @ Message User (Plain q2) # pairs2 @ final2"
      by blast
    then have "conversation_history (snd (process_research_query E q2 s')) =
        earlier @ [Message User c, Message User (Plain q2)] @ (pairs2 @ final2)"
      by (simp add: run2 last)
    then show ?thesis by blast
  qed
  from 1 last 3 show ?thesis by blast
qed

lemma failed_after_search_run:
  "process_research_query env_fails_after_search ''q'' new_assistant =
     (''Unexpected Error: connection reset'',
      new_assistant\<lparr>conversation_history := search_turns,
        model_log := [([Message User (Plain ''q'')], Inr search_request),
                      (search_turns, Inl (OtherException ''connection reset''))],
        net_log := [(JStr ''isabelle'', JInt 2)]\<rparr>)"
  by (simp add: eval_defs env_fails_after_search_def search_request_def search_turns_def)

theorem failed_query_leaves_user_turn_witness:
  "conversation_history (snd (process_research_query env_fails_after_search ''q'' new_assistant))
     = search_turns
   \<and> conversation_history (snd (process_research_query env_fails_after_search ''next''
        (snd (process_research_query env_fails_after_search ''q'' new_assistant))))
     = search_turns @ [Message User (Plain ''next''), Message Assistant (Plain ''Done.'')]"
proof -
  have 1: "model_log (new_assistant\<lparr>conversation_history := search_turns,
        model_log := [([Message User (Plain ''q'')], Inr search_request),
                      (search_turns, Inl (OtherException ''connection reset''))],
        net_log := [(JStr ''isabelle'', JInt 2)]\<rparr>) =
      model_log new_assistant @ [([Message User (Plain ''q'')], Inr search_request),
                      (search_turns, Inl (OtherException ''connection reset''))]"
    by (simp add: new_assistant_def)
  have 2: "(search_turns, Inl (OtherException ''connection reset''))
      \<in> set [([Message User (Plain ''q'')], Inr search_request),
                      (search_turns, Inl (OtherException ''connection reset''))]"
    by simp
  from failed_query_leaves_user_turn [OF failed_after_search_run 1 2]
  show ?thesis
    by (simp add: failed_after_search_run)
       (simp add: eval_defs env_fails_after_search_def final_answer_def)
qed

end
